theory Spec2Isabelle
  imports Complex_Main "HOL-Library.Word" "HOL-Library.Sublist" "HOL-Library.AList"
begin

section \<open>JavaScript strings and values\<close>

text \<open>
  A JavaScript string is a sequence of UTF-16 code units. String literals of the
  source are ASCII (one exception, spelled out where it occurs), so a literal is
  written as an Isabelle string and embedded with \<open>lit\<close>.
\<close>

type_synonym jsstring = "16 word list"

definition lit :: "string \<Rightarrow> jsstring" where
  "lit s = map of_char s"

definition NL :: jsstring where
  "NL = [0x0A]"

text \<open>
  Values that \<open>JSON.parse\<close> can produce. A number is kept exactly, as a decimal
  \<open>m * 10 ^ e\<close>: its IEEE rounding is not modelled, so the model is that of
  JavaScript for the decimals that a double holds exactly and prints back (every integer
  score of a response is one), and not for a text such as \<open>1e-400\<close> or an integer past
  \<open>2^53\<close>. An object lists its own properties in creation order, which is the order
  of JavaScript for property names that are not array indices (the names of a response
  are none).
\<close>

datatype json =
    JNull
  | JBool bool
  | JNum int int
  | JStr jsstring
  | JArr "json list"
  | JObj "(jsstring \<times> json) list"

subsection \<open>Number to string, for integers\<close>

function digits :: "nat \<Rightarrow> jsstring" where
  "digits n = (if n < 10 then [0x30 + of_nat n]
               else digits (n div 10) @ [0x30 + of_nat (n mod 10)])"
  by pat_completeness auto
termination
  by (relation "measure id") auto

declare digits.simps [simp del]

definition is_digit :: "16 word \<Rightarrow> bool" where
  "is_digit c = (c \<in> {0x30, 0x31, 0x32, 0x33, 0x34, 0x35, 0x36, 0x37, 0x38, 0x39})"

text \<open>\<open>Number.prototype.toString\<close> on an integer (below \<open>10^21\<close> in magnitude,
  where JavaScript prints plain decimal digits).\<close>

definition Number_toString :: "int \<Rightarrow> jsstring" where
  "Number_toString i = (if i < 0 then 0x2D # digits (nat (- i)) else digits (nat i))"

section \<open>types.ts\<close>

datatype Subject = MATH | CHINESE | ENGLISH | SCIENCE

fun Subject_str :: "Subject \<Rightarrow> jsstring" where
  "Subject_str MATH = lit ''Mathematics''"
| "Subject_str CHINESE = lit ''Chinese Literature''"
| "Subject_str ENGLISH = lit ''English''"
| "Subject_str SCIENCE = lit ''Science''"

datatype Grade = PRIMARY | MIDDLE

fun Grade_str :: "Grade \<Rightarrow> jsstring" where
  "Grade_str PRIMARY = lit ''Primary School''"
| "Grade_str MIDDLE = lit ''Middle School''"

datatype TaskMode = MISTAKE_ANALYSIS | CONCEPT_EXPLANATION | HOMEWORK_HELP

datatype PedagogicalState = GUIDING | EXPLAINING | QUIZZING

fun PedagogicalState_str :: "PedagogicalState \<Rightarrow> jsstring" where
  "PedagogicalState_str GUIDING = lit ''GUIDING''"
| "PedagogicalState_str EXPLAINING = lit ''EXPLAINING''"
| "PedagogicalState_str QUIZZING = lit ''QUIZZING''"

text \<open>The run-time value of an enum member is its string.\<close>

definition state_val :: "PedagogicalState \<Rightarrow> json" where
  "state_val s = JStr (PedagogicalState_str s)"

datatype MasteryLevel = Novice | Intermediate | Advanced

fun MasteryLevel_str :: "MasteryLevel \<Rightarrow> jsstring" where
  "MasteryLevel_str Novice = lit ''Novice''"
| "MasteryLevel_str Intermediate = lit ''Intermediate''"
| "MasteryLevel_str Advanced = lit ''Advanced''"

record StudentProfile =
  name :: jsstring
  age :: int
  grade :: Grade
  masteryLevel :: MasteryLevel
  email :: jsstring

section \<open>services/promptEngineering.ts\<close>

definition baseIdentity :: "Subject \<Rightarrow> jsstring" where
  "baseIdentity subject =
     lit ''You are EduMind, an expert AI tutor for K-12 education specializing in ''
     @ Subject_str subject @ lit ''.''"

definition audienceConstraint :: "StudentProfile \<Rightarrow> jsstring" where
  "audienceConstraint student =
     lit ''Your student is in '' @ Grade_str (grade student)
     @ lit '' (approx '' @ Number_toString (age student) @ lit '' years old). '' @ NL
     @ lit ''  Adjust your vocabulary and tone to be age-appropriate. '' @ NL
     @ lit ''  Current Mastery Level: '' @ MasteryLevel_str (masteryLevel student) @ lit ''.''"

text \<open>The three \<open>case\<close> blocks of the \<open>switch\<close>.\<close>

definition guiding_block :: jsstring where
  \<open>guiding_block =
     NL @ lit ''      CURRENT STATE: [GUIDING/SOCRATIC]'' @ NL
     @ lit ''      - DO NOT provide direct answers.'' @ NL
     @ lit ''      - Ask guiding questions to help the student realize their mistake.'' @ NL
     @ lit ''      - If they are stuck, provide a small hint, but not the solution.'' @ NL
     @ lit ''      - Focus on the "Process", not the "Result".'' @ NL
     @ lit ''      ''\<close>

definition explaining_block :: "Grade \<Rightarrow> jsstring" where
  "explaining_block g =
     NL @ lit ''      CURRENT STATE: [EXPLAINING/DEEP DIVE]'' @ NL
     @ lit ''      - The student has shown confusion or explicitly asked for an explanation.'' @ NL
     @ lit ''      - Provide clear, conceptual explanations using analogies suitable for a ''
     @ Grade_str g @ lit '' student.'' @ NL
     @ lit ''      - Link the concept to real-world examples.'' @ NL
     @ lit ''      ''"

definition quizzing_block :: jsstring where
  "quizzing_block =
     NL @ lit ''      CURRENT STATE: [QUIZZING/CONSOLIDATION]'' @ NL
     @ lit ''      - The student seems to understand the concept.'' @ NL
     @ lit ''      - Generate a NEW similar problem to test their understanding.'' @ NL
     @ lit ''      - Verify if they can apply the knowledge independently.'' @ NL
     @ lit ''      ''"

text \<open>
  The \<open>switch\<close> compares with \<open>===\<close>; a value that is none of the three state
  strings leaves \<open>behavioralDirectives\<close> empty.
\<close>

definition behavioralDirectives :: "StudentProfile \<Rightarrow> json \<Rightarrow> jsstring" where
  "behavioralDirectives student currentState =
     (if currentState = JStr (lit ''GUIDING'') then guiding_block
      else if currentState = JStr (lit ''EXPLAINING'') then explaining_block (grade student)
      else if currentState = JStr (lit ''QUIZZING'') then quizzing_block
      else [])"

definition modeDirectives :: "TaskMode \<Rightarrow> jsstring" where
  "modeDirectives mode =
     (if mode = MISTAKE_ANALYSIS
      then lit ''You are analyzing a mistake. Find the root cause of the error.''
      else lit ''You are explaining a new concept.'')"

definition outputFormat :: jsstring where
  \<open>outputFormat =
     NL @ lit ''  CRITICAL OUTPUT RULES:'' @ NL
     @ lit ''  You must respond in strict JSON format. Do not add markdown backticks around the JSON.'' @ NL
     @ lit ''  '' @ NL
     @ lit ''  JSON Schema:'' @ NL
     @ lit ''  {'' @ NL
     @ lit ''    "content_for_user": "The actual text response to the student.",'' @ NL
     @ lit ''    "internal_monologue": "Your internal reasoning about the student's state.",'' @ NL
     @ lit ''    "knowledge_point_id": "Short ID of the concept (e.g., MATH_05_FRACTIONS)",'' @ NL
     @ lit ''    "student_mastery_score": number (0-100 estimate based on conversation),'' @ NL
     @ lit ''    "suggested_next_state": "GUIDING" | "EXPLAINING" | "QUIZZING",'' @ NL
     @ lit ''    "is_direct_answer_attempt": boolean (true if the user just asked for the answer without trying)'' @ NL
     @ lit ''  }'' @ NL
     @ lit ''  ''\<close>

definition constructSystemPrompt ::
  "Subject \<Rightarrow> StudentProfile \<Rightarrow> TaskMode \<Rightarrow> json \<Rightarrow> jsstring" where
  "constructSystemPrompt subject student mode currentState =
     baseIdentity subject @ NL
     @ lit ''  '' @ audienceConstraint student @ NL
     @ lit ''  '' @ modeDirectives mode @ NL
     @ lit ''  '' @ behavioralDirectives student currentState @ NL
     @ lit ''  '' @ outputFormat"

section \<open>Auxiliary notions for the instruction text\<close>

text \<open>
  The directive sentences of each \<open>case\<close> block of the \<open>switch\<close> in
  \<open>constructSystemPrompt\<close>, without the list bullet. The \<open>EXPLAINING\<close> block
  names the grade.
\<close>

fun directive_keywords :: "PedagogicalState \<Rightarrow> Grade \<Rightarrow> jsstring list" where
  \<open>directive_keywords GUIDING g =
     [lit ''DO NOT provide direct answers.'',
      lit ''Ask guiding questions to help the student realize their mistake.'',
      lit ''If they are stuck, provide a small hint, but not the solution.'',
      lit ''Focus on the "Process", not the "Result".'']\<close>
| \<open>directive_keywords EXPLAINING g =
     [lit ''Provide clear, conceptual explanations using analogies suitable for a ''
        @ Grade_str g @ lit '' student.'',
      lit ''Link the concept to real-world examples.'']\<close>
| \<open>directive_keywords QUIZZING g =
     [lit ''Generate a NEW similar problem to test their understanding.'',
      lit ''Verify if they can apply the knowledge independently.'']\<close>

text \<open>The instruction text seen as lines: the text is the lines joined by line feeds.\<close>

fun join_lines :: "jsstring list \<Rightarrow> jsstring" where
  "join_lines [] = []"
| "join_lines [l] = l"
| "join_lines (l # ls) = l @ NL @ join_lines ls"

definition block_lines :: "PedagogicalState \<Rightarrow> Grade \<Rightarrow> jsstring list" where
  \<open>block_lines s g = (case s of
     GUIDING \<Rightarrow>
       [lit ''      CURRENT STATE: [GUIDING/SOCRATIC]'',
        lit ''      - DO NOT provide direct answers.'',
        lit ''      - Ask guiding questions to help the student realize their mistake.'',
        lit ''      - If they are stuck, provide a small hint, but not the solution.'',
        lit ''      - Focus on the "Process", not the "Result".'']
   | EXPLAINING \<Rightarrow>
       [lit ''      CURRENT STATE: [EXPLAINING/DEEP DIVE]'',
        lit ''      - The student has shown confusion or explicitly asked for an explanation.'',
        lit ''      - Provide clear, conceptual explanations using analogies suitable for a ''
          @ Grade_str g @ lit '' student.'',
        lit ''      - Link the concept to real-world examples.'']
   | QUIZZING \<Rightarrow>
       [lit ''      CURRENT STATE: [QUIZZING/CONSOLIDATION]'',
        lit ''      - The student seems to understand the concept.'',
        lit ''      - Generate a NEW similar problem to test their understanding.'',
        lit ''      - Verify if they can apply the knowledge independently.''])\<close>

definition format_lines :: "jsstring list" where
  \<open>format_lines =
     [lit ''  CRITICAL OUTPUT RULES:'',
      lit ''  You must respond in strict JSON format. Do not add markdown backticks around the JSON.'',
      lit ''  '',
      lit ''  JSON Schema:'',
      lit ''  {'',
      lit ''    "content_for_user": "The actual text response to the student.",'',
      lit ''    "internal_monologue": "Your internal reasoning about the student's state.",'',
      lit ''    "knowledge_point_id": "Short ID of the concept (e.g., MATH_05_FRACTIONS)",'',
      lit ''    "student_mastery_score": number (0-100 estimate based on conversation),'',
      lit ''    "suggested_next_state": "GUIDING" | "EXPLAINING" | "QUIZZING",'',
      lit ''    "is_direct_answer_attempt": boolean (true if the user just asked for the answer without trying)'',
      lit ''  }'',
      lit ''  '']\<close>

definition head_lines :: "Subject \<Rightarrow> StudentProfile \<Rightarrow> TaskMode \<Rightarrow> jsstring list" where
  "head_lines subject student mode =
     [baseIdentity subject,
      (lit ''  Your student is in '' @ Grade_str (grade student) @ lit '' (approx '')
        @ Number_toString (age student) @ lit '' years old). '',
      lit ''  Adjust your vocabulary and tone to be age-appropriate. '',
      lit ''  Current Mastery Level: '' @ MasteryLevel_str (masteryLevel student) @ lit ''.'',
      lit ''  '' @ modeDirectives mode,
      lit ''  '']"

definition prompt_lines ::
  "Subject \<Rightarrow> StudentProfile \<Rightarrow> TaskMode \<Rightarrow> PedagogicalState \<Rightarrow> jsstring list" where
  "prompt_lines subject student mode s =
     head_lines subject student mode @ block_lines s (grade student)
     @ [lit ''      '', lit ''  ''] @ format_lines"

text \<open>Every directive sentence of the three blocks, for both grades.\<close>

definition all_keys :: "jsstring list" where
  "all_keys = directive_keywords GUIDING PRIMARY @ directive_keywords EXPLAINING PRIMARY
     @ directive_keywords EXPLAINING MIDDLE @ directive_keywords QUIZZING PRIMARY"

text \<open>A sentence that cannot overlap a line feed or the digits of a number.\<close>

definition key_shape :: "jsstring \<Rightarrow> bool" where
  "key_shape k \<longleftrightarrow> k \<noteq> [] \<and> 0x0A \<notin> set k \<and> (\<forall>c\<in>set k. \<not> is_digit c) \<and> last k \<noteq> 0x2D"

section \<open>JSON.parse\<close>

datatype token = TLBrace | TRBrace | TLBracket | TRBracket | TColon | TComma
  | TStr jsstring | TNum int int | TTrue | TFalse | TNull

definition hex_val :: "16 word \<Rightarrow> 16 word option" where
  "hex_val c =
     (if 0x30 \<le> c \<and> c \<le> 0x39 then Some (c - 0x30)
      else if 0x41 \<le> c \<and> c \<le> 0x46 then Some (c - 0x37)
      else if 0x61 \<le> c \<and> c \<le> 0x66 then Some (c - 0x57)
      else None)"

definition hex4 :: "jsstring \<Rightarrow> 16 word option" where
  "hex4 cs = (case map hex_val (take 4 cs) of
      [Some a, Some b, Some c, Some d] \<Rightarrow> Some (a * 0x1000 + b * 0x100 + c * 0x10 + d)
    | _ \<Rightarrow> None)"

definition unescape :: "16 word \<Rightarrow> 16 word option" where
  "unescape e =
     (if e = 0x22 \<or> e = 0x5C \<or> e = 0x2F then Some e
      else if e = 0x62 then Some 0x08
      else if e = 0x66 then Some 0x0C
      else if e = 0x6E then Some 0x0A
      else if e = 0x72 then Some 0x0D
      else if e = 0x74 then Some 0x09
      else None)"

text \<open>The characters of a string after its opening quote: the decoded string and the
  number of code units read, closing quote included.\<close>

fun lex_string :: "jsstring \<Rightarrow> (jsstring \<times> nat) option" where
  "lex_string [] = None"
| "lex_string (c # cs) =
     (if c = 0x22 then Some ([], 1)
      else if c = 0x5C then
        (case cs of
           [] \<Rightarrow> None
         | e # es \<Rightarrow>
             if e = 0x75 then
               (case hex4 es of
                  None \<Rightarrow> None
                | Some w \<Rightarrow> map_option (\<lambda>(s, n). (w # s, n + 6)) (lex_string (drop 4 es)))
             else
               (case unescape e of
                  None \<Rightarrow> None
                | Some w \<Rightarrow> map_option (\<lambda>(s, n). (w # s, n + 2)) (lex_string es)))
      else if c < 0x20 then None
      else map_option (\<lambda>(s, n). (c # s, n + 1)) (lex_string cs))"

definition digits_val :: "jsstring \<Rightarrow> int" where
  "digits_val ds = foldl (\<lambda>a d. 10 * a + uint (d - 0x30)) 0 ds"

definition int_part :: "jsstring \<Rightarrow> jsstring" where
  "int_part s = (case s of [] \<Rightarrow> [] | d # r \<Rightarrow> if d = 0x30 then [d] else takeWhile is_digit s)"

definition frac_part :: "jsstring \<Rightarrow> (jsstring \<times> nat) option" where
  "frac_part s = (case s of
       [] \<Rightarrow> Some ([], 0)
     | c # r \<Rightarrow>
         if c = 0x2E then
           (let ds = takeWhile is_digit r in if ds = [] then None else Some (ds, Suc (length ds)))
         else Some ([], 0))"

definition exp_digits :: "int \<Rightarrow> nat \<Rightarrow> jsstring \<Rightarrow> (int \<times> nat) option" where
  "exp_digits sg k r =
     (let ds = takeWhile is_digit r
      in if ds = [] then None else Some (sg * digits_val ds, k + length ds))"

definition exp_part :: "jsstring \<Rightarrow> (int \<times> nat) option" where
  "exp_part s = (case s of
       [] \<Rightarrow> Some (0, 0)
     | c # r \<Rightarrow>
         if c = 0x65 \<or> c = 0x45 then
           (case r of
              [] \<Rightarrow> None
            | x # r' \<Rightarrow>
                if x = 0x2B then exp_digits 1 2 r'
                else if x = 0x2D then exp_digits (- 1) 2 r'
                else exp_digits 1 1 r)
         else Some (0, 0))"

function norm_dec :: "int \<Rightarrow> int \<Rightarrow> int \<times> int" where
  "norm_dec m e =
     (if m = 0 then (0, 0)
      else if m mod 10 = 0 then norm_dec (m div 10) (e + 1)
      else (m, e))"
  by pat_completeness auto
termination
  by (relation "measure (\<lambda>(m, e). nat \<bar>m\<bar>)") auto

declare norm_dec.simps [simp del]

definition lex_number :: "jsstring \<Rightarrow> (int \<times> int \<times> nat) option" where
  "lex_number s =
     (let neg = (s \<noteq> [] \<and> hd s = 0x2D);
          s1 = (if neg then tl s else s);
          ip = int_part s1
      in if ip = [] then None
         else (case frac_part (drop (length ip) s1) of
                 None \<Rightarrow> None
               | Some (fp, nf) \<Rightarrow>
                   (case exp_part (drop (length ip + nf) s1) of
                      None \<Rightarrow> None
                    | Some (ex, ne) \<Rightarrow>
                        (let m = digits_val (ip @ fp);
                             (m', e') = norm_dec (if neg then - m else m) (ex - int (length fp))
                         in Some (m', e', (if neg then 1 else 0) + length ip + nf + ne)))))"

definition is_json_ws :: "16 word \<Rightarrow> bool" where
  "is_json_ws c \<longleftrightarrow> c = 0x20 \<or> c = 0x09 \<or> c = 0x0A \<or> c = 0x0D"

function lex :: "jsstring \<Rightarrow> token list option" where
  "lex [] = Some []"
| "lex (c # cs) =
     (if is_json_ws c then lex cs
      else if c = 0x7B then map_option ((#) TLBrace) (lex cs)
      else if c = 0x7D then map_option ((#) TRBrace) (lex cs)
      else if c = 0x5B then map_option ((#) TLBracket) (lex cs)
      else if c = 0x5D then map_option ((#) TRBracket) (lex cs)
      else if c = 0x3A then map_option ((#) TColon) (lex cs)
      else if c = 0x2C then map_option ((#) TComma) (lex cs)
      else if c = 0x22 then
        (case lex_string cs of
           None \<Rightarrow> None
         | Some (s, n) \<Rightarrow> map_option ((#) (TStr s)) (lex (drop n cs)))
      else if c = 0x2D \<or> is_digit c then
        (case lex_number (c # cs) of
           None \<Rightarrow> None
         | Some (m, e, n) \<Rightarrow> map_option ((#) (TNum m e)) (lex (drop (n - 1) cs)))
      else if prefix (lit ''true'') (c # cs) then map_option ((#) TTrue) (lex (drop 3 cs))
      else if prefix (lit ''false'') (c # cs) then map_option ((#) TFalse) (lex (drop 4 cs))
      else if prefix (lit ''null'') (c # cs) then map_option ((#) TNull) (lex (drop 3 cs))
      else None)"
  by pat_completeness auto
termination
  by (relation "measure length") auto

function parse_value :: "token list \<Rightarrow> (json \<times> token list) option"
  and parse_elements :: "json list \<Rightarrow> token list \<Rightarrow> (json \<times> token list) option"
  and parse_members :: "(jsstring \<times> json) list \<Rightarrow> token list \<Rightarrow> (json \<times> token list) option"
where
  "parse_value [] = None"
| "parse_value (t # ts) =
     (case t of
        TNull \<Rightarrow> Some (JNull, ts)
      | TTrue \<Rightarrow> Some (JBool True, ts)
      | TFalse \<Rightarrow> Some (JBool False, ts)
      | TNum m e \<Rightarrow> Some (JNum m e, ts)
      | TStr s \<Rightarrow> Some (JStr s, ts)
      | TLBracket \<Rightarrow>
          (case ts of TRBracket # r \<Rightarrow> Some (JArr [], r) | _ \<Rightarrow> parse_elements [] ts)
      | TLBrace \<Rightarrow>
          (case ts of TRBrace # r \<Rightarrow> Some (JObj [], r) | _ \<Rightarrow> parse_members [] ts)
      | _ \<Rightarrow> None)"
| "parse_elements acc ts =
     (case parse_value ts of
        None \<Rightarrow> None
      | Some (v, rest) \<Rightarrow>
          if length rest < length ts then
            (case rest of
               TComma # r \<Rightarrow> parse_elements (acc @ [v]) r
             | TRBracket # r \<Rightarrow> Some (JArr (acc @ [v]), r)
             | _ \<Rightarrow> None)
          else None)"
| "parse_members acc ts =
     (case ts of
        TStr k # TColon # ts' \<Rightarrow>
          (case parse_value ts' of
             None \<Rightarrow> None
           | Some (v, rest) \<Rightarrow>
               if length rest < length ts' then
                 (case rest of
                    TComma # r \<Rightarrow> parse_members (AList.update k v acc) r
                  | TRBrace # r \<Rightarrow> Some (JObj (AList.update k v acc), r)
                  | _ \<Rightarrow> None)
               else None)
      | _ \<Rightarrow> None)"
  by pat_completeness auto
termination
  by (relation "measure (\<lambda>x. case x of
        Inl ts \<Rightarrow> 2 * length ts
      | Inr (Inl (acc, ts)) \<Rightarrow> 2 * length ts + 1
      | Inr (Inr (acc, ts)) \<Rightarrow> 2 * length ts + 1)") auto

definition JSON_parse :: "jsstring \<Rightarrow> json option" where
  "JSON_parse s =
     (case lex s of
        None \<Rightarrow> None
      | Some ts \<Rightarrow> (case parse_value ts of Some (v, []) \<Rightarrow> Some v | _ \<Rightarrow> None))"

section \<open>JSON.stringify\<close>

definition hex_digit :: "nat \<Rightarrow> 16 word" where
  "hex_digit n = (if n < 10 then 0x30 + of_nat n else 0x57 + of_nat n)"

definition hex4_of :: "16 word \<Rightarrow> jsstring" where
  "hex4_of c = (let n = unat c in
     [hex_digit (n div 4096), hex_digit (n div 256 mod 16), hex_digit (n div 16 mod 16),
      hex_digit (n mod 16)])"

definition is_high_surrogate :: "16 word \<Rightarrow> bool" where
  "is_high_surrogate c \<longleftrightarrow> 0xD800 \<le> c \<and> c \<le> 0xDBFF"

definition is_low_surrogate :: "16 word \<Rightarrow> bool" where
  "is_low_surrogate c \<longleftrightarrow> 0xDC00 \<le> c \<and> c \<le> 0xDFFF"

definition escape_unit :: "16 word \<Rightarrow> jsstring" where
  "escape_unit c =
     (if c = 0x22 then [0x5C, 0x22]
      else if c = 0x5C then [0x5C, 0x5C]
      else if c = 0x08 then [0x5C, 0x62]
      else if c = 0x0C then [0x5C, 0x66]
      else if c = 0x0A then [0x5C, 0x6E]
      else if c = 0x0D then [0x5C, 0x72]
      else if c = 0x09 then [0x5C, 0x74]
      else if c < 0x20 \<or> is_high_surrogate c \<or> is_low_surrogate c
        then [0x5C, 0x75] @ hex4_of c
      else [c])"

text \<open>\<open>QuoteJSONString\<close> without the quotes: a surrogate pair is kept, a lone
  surrogate is escaped.\<close>

fun escape :: "jsstring \<Rightarrow> jsstring" where
  "escape [] = []"
| "escape [c] = escape_unit c"
| "escape (c # d # cs) =
     (if is_high_surrogate c \<and> is_low_surrogate d then c # d # escape cs
      else escape_unit c @ escape (d # cs))"

text \<open>
  \<open>Number::toString\<close> of the decimal \<open>m * 10 ^ e\<close>, where \<open>m\<close> has no trailing
  zero: with \<open>k\<close> digits and \<open>n = k + e\<close>, plain digits for \<open>k \<le> n \<le> 21\<close>, a
  decimal point inside for \<open>0 < n \<le> 21\<close>, leading zeros for \<open>-6 < n \<le> 0\<close>,
  exponent notation otherwise.
\<close>

definition Number_toString_dec :: "int \<Rightarrow> int \<Rightarrow> jsstring" where
  "Number_toString_dec m e =
     (if m = 0 then [0x30]
      else
        (let ds = digits (nat \<bar>m\<bar>); k = int (length ds); n = k + e;
             body =
               (if k \<le> n \<and> n \<le> 21 then ds @ replicate (nat (n - k)) 0x30
                else if 0 < n \<and> n \<le> 21 then take (nat n) ds @ [0x2E] @ drop (nat n) ds
                else if - 6 < n \<and> n \<le> 0 then [0x30, 0x2E] @ replicate (nat (- n)) 0x30 @ ds
                else
                  (let ex = n - 1;
                       es = (if ex < 0 then [0x2D] else [0x2B]) @ digits (nat \<bar>ex\<bar>)
                   in if k = 1 then ds @ [0x65] @ es
                      else take 1 ds @ [0x2E] @ drop 1 ds @ [0x65] @ es))
         in (if m < 0 then [0x2D] else []) @ body))"

function JSON_stringify :: "json \<Rightarrow> jsstring"
  and stringify_elements :: "json list \<Rightarrow> jsstring"
  and stringify_members :: "(jsstring \<times> json) list \<Rightarrow> jsstring"
where
  "JSON_stringify JNull = lit ''null''"
| "JSON_stringify (JBool b) = (if b then lit ''true'' else lit ''false'')"
| "JSON_stringify (JNum m e) = Number_toString_dec m e"
| "JSON_stringify (JStr s) = [0x22] @ escape s @ [0x22]"
| "JSON_stringify (JArr xs) = [0x5B] @ stringify_elements xs @ [0x5D]"
| "JSON_stringify (JObj ps) = [0x7B] @ stringify_members ps @ [0x7D]"
| "stringify_elements [] = []"
| "stringify_elements [x] = JSON_stringify x"
| "stringify_elements (x # y # xs) = JSON_stringify x @ [0x2C] @ stringify_elements (y # xs)"
| "stringify_members [] = []"
| "stringify_members [(k, v)] = [0x22] @ escape k @ [0x22, 0x3A] @ JSON_stringify v"
| "stringify_members ((k, v) # q # ps) =
     [0x22] @ escape k @ [0x22, 0x3A] @ JSON_stringify v @ [0x2C] @ stringify_members (q # ps)"
  by pat_completeness auto
termination
  by (relation "measure (\<lambda>x. case x of
        Inl j \<Rightarrow> size j
      | Inr (Inl xs) \<Rightarrow> size_list size xs
      | Inr (Inr ps) \<Rightarrow> size_list (size_prod (\<lambda>x. 0) size) ps)") auto

section \<open>String.prototype.trim and the code-fence pattern\<close>

text \<open>The code units of \<open>WhiteSpace\<close> and \<open>LineTerminator\<close>.\<close>

definition js_ws_units :: "16 word list" where
  "js_ws_units = [0x09, 0x0A, 0x0B, 0x0C, 0x0D, 0x20, 0xA0, 0x1680,
      0x2000, 0x2001, 0x2002, 0x2003, 0x2004, 0x2005, 0x2006, 0x2007, 0x2008, 0x2009, 0x200A,
      0x2028, 0x2029, 0x202F, 0x205F, 0x3000, 0xFEFF]"

definition is_js_ws :: "16 word \<Rightarrow> bool" where
  "is_js_ws c \<longleftrightarrow> c \<in> set js_ws_units"

definition trim :: "jsstring \<Rightarrow> jsstring" where
  "trim s = rev (dropWhile is_js_ws (rev (dropWhile is_js_ws s)))"

definition FENCE :: jsstring where
  "FENCE = lit ''```''"

definition FENCE_JSON :: jsstring where
  "FENCE_JSON = lit ''```json''"

function strip_fences :: "jsstring \<Rightarrow> jsstring" where
  "strip_fences [] = []"
| "strip_fences (c # cs) =
     (if prefix (FENCE_JSON @ NL) (c # cs) then strip_fences (drop 7 cs)
      else if prefix FENCE_JSON (c # cs) then strip_fences (drop 6 cs)
      else if prefix (NL @ FENCE) (c # cs) then strip_fences (drop 3 cs)
      else if prefix FENCE (c # cs) then strip_fences (drop 2 cs)
      else c # strip_fences cs)"
  by pat_completeness auto
termination
  by (relation "measure length") auto

section \<open>Run-time values\<close>

text \<open>A value read from a parsed response: \<open>None\<close> is \<open>undefined\<close>.\<close>

type_synonym jsval = "json option"

definition truthy :: "jsval \<Rightarrow> bool" where
  "truthy v = (case v of
       None \<Rightarrow> False
     | Some JNull \<Rightarrow> False
     | Some (JBool b) \<Rightarrow> b
     | Some (JNum m e) \<Rightarrow> m \<noteq> 0
     | Some (JStr s) \<Rightarrow> s \<noteq> []
     | Some (JArr xs) \<Rightarrow> True
     | Some (JObj ps) \<Rightarrow> True)"

text \<open>Reading a property of a value that is not \<open>null\<close>, for the property names
  the code uses (no prototype defines any of them).\<close>

definition get_prop :: "json \<Rightarrow> jsstring \<Rightarrow> jsval" where
  "get_prop j k = (case j of JObj ps \<Rightarrow> map_of ps k | _ \<Rightarrow> None)"

definition get_index0 :: "json \<Rightarrow> jsval" where
  "get_index0 j = (case j of
       JArr xs \<Rightarrow> (case xs of [] \<Rightarrow> None | x # r \<Rightarrow> Some x)
     | JStr s \<Rightarrow> (case s of [] \<Rightarrow> None | c # r \<Rightarrow> Some (JStr [c]))
     | JObj ps \<Rightarrow> map_of ps (lit ''0'')
     | _ \<Rightarrow> None)"

text \<open>Optional chaining \<open>v?.f\<close>: \<open>undefined\<close> when \<open>v\<close> is \<open>null\<close> or \<open>undefined\<close>.\<close>

definition opt_chain :: "jsval \<Rightarrow> (json \<Rightarrow> jsval) \<Rightarrow> jsval" where
  "opt_chain v f = (case v of None \<Rightarrow> None | Some JNull \<Rightarrow> None | Some j \<Rightarrow> f j)"

text \<open>\<open>===\<close> on parsed values. Two arrays or objects parsed from different texts are
  different references.\<close>

fun strict_eq :: "json \<Rightarrow> json \<Rightarrow> bool" where
  "strict_eq JNull JNull = True"
| "strict_eq (JBool a) (JBool b) = (a = b)"
| "strict_eq (JNum m e) (JNum m' e') = (m = m' \<and> e = e')"
| "strict_eq (JStr s) (JStr t) = (s = t)"
| "strict_eq a b = False"

text \<open>A thrown value, with what \<open>${error}\<close> prints for it: \<open>new Error(m)\<close> prints
  \<open>Error: m\<close>; an error raised by the platform, or a rejected promise, carries its
  printed form.\<close>

datatype thrown = ErrorObj jsstring | Native jsstring

definition error_string :: "thrown \<Rightarrow> jsstring" where
  "error_string t = (case t of ErrorObj m \<Rightarrow> lit ''Error: '' @ m | Native s \<Rightarrow> s)"

section \<open>types.ts: messages\<close>

datatype Role = User | Assistant | System

record ChatMessage =
  msg_id :: jsstring
  role :: Role
  content :: jsval
  metadata :: jsval
  timestamp :: int

record MistakeRecord =
  userEmail :: jsstring
  mr_subject :: Subject
  question :: jsstring
  analysis :: jsval
  knowledgePoint :: jsval
  mr_timestamp :: int

section \<open>services/localLlmService.ts\<close>

datatype api_message = ApiMessage (api_role: jsstring) (api_content: jsval)

record request =
  req_model :: jsstring
  req_messages :: "api_message list"
  req_temperature :: json
  req_max_tokens :: int
  req_response_format :: jsstring

text \<open>What \<open>fetch\<close> gives: a rejection, or a response with its status, status text and
  body text.\<close>

datatype fetch_result = Rejected jsstring | Responded int jsstring jsstring

text \<open>The platform: the network, and the text of the errors it raises itself.\<close>

record engine =
  fetch :: "jsstring \<Rightarrow> request \<Rightarrow> fetch_result"
  syntax_error_text :: "jsstring \<Rightarrow> jsstring"
  type_error_text :: "jsstring \<Rightarrow> jsstring"

datatype net_call = NetCall jsstring request

definition apiMessages :: "jsstring \<Rightarrow> ChatMessage list \<Rightarrow> jsstring \<Rightarrow> api_message list" where
  "apiMessages systemPrompt history userMessage =
     [ApiMessage (lit ''system'') (Some (JStr systemPrompt))]
     @ map (\<lambda>h. ApiMessage
              (if role h = Assistant then lit ''assistant'' else lit ''user'')
              (if role h = Assistant \<and> truthy (metadata h)
               then map_option (\<lambda>m. JStr (JSON_stringify m)) (metadata h)
               else content h)) history
     @ [ApiMessage (lit ''user'') (Some (JStr userMessage))]"

definition request_of :: "jsstring \<Rightarrow> jsstring \<Rightarrow> ChatMessage list \<Rightarrow> jsstring \<Rightarrow> request" where
  "request_of modelName systemPrompt history userMessage =
     \<lparr>req_model = modelName,
      req_messages = apiMessages systemPrompt history userMessage,
      req_temperature = JNum 7 (- 1),
      req_max_tokens = 2048,
      req_response_format = lit ''json_object''\<rparr>"

text \<open>\<open>data.choices?.[0]?.message?.content\<close>\<close>

definition rawContent_of :: "engine \<Rightarrow> json \<Rightarrow> thrown + jsval" where
  "rawContent_of en data = (case data of
       JNull \<Rightarrow> Inl (Native (type_error_text en (lit ''choices'')))
     | _ \<Rightarrow> Inr (opt_chain (opt_chain (opt_chain (get_prop data (lit ''choices'')) get_index0)
                (\<lambda>j. get_prop j (lit ''message''))) (\<lambda>j. get_prop j (lit ''content''))))"

definition PARSE_FAILURE :: thrown where
  "PARSE_FAILURE = ErrorObj (lit ''Failed to parse structured output from Local LLM'')"

text \<open>
  Step 3 of \<open>sendMessageToLocalLLM\<close>, the inner \<open>try\<close>: the fence pattern is replaced
  and the text trimmed, then parsed. On a value that is not a string \<open>replace\<close> is not
  a function; that \<open>TypeError\<close> is caught by the same \<open>catch\<close>.
\<close>

definition parseStructuredResponse_local :: "jsval \<Rightarrow> thrown + json" where
  "parseStructuredResponse_local rawContent = (case rawContent of
       Some (JStr s) \<Rightarrow>
         (case JSON_parse (trim (strip_fences s)) of
            Some v \<Rightarrow> Inr v
          | None \<Rightarrow> Inl PARSE_FAILURE)
     | _ \<Rightarrow> Inl PARSE_FAILURE)"

text \<open>The body of the outer \<open>try\<close>, from the result of \<open>fetch\<close> on.\<close>

definition local_try :: "engine \<Rightarrow> fetch_result \<Rightarrow> thrown + json" where
  "local_try en res = (case res of
       Rejected t \<Rightarrow> Inl (Native t)
     | Responded status statusText body \<Rightarrow>
         if \<not> (200 \<le> status \<and> status \<le> 299) then
           Inl (ErrorObj (lit ''Local API Error: '' @ Number_toString status @ lit '' '' @ statusText))
         else
           (case JSON_parse body of
              None \<Rightarrow> Inl (Native (syntax_error_text en body))
            | Some data \<Rightarrow>
                (case rawContent_of en data of
                   Inl t \<Rightarrow> Inl t
                 | Inr rawContent \<Rightarrow>
                     if \<not> truthy rawContent
                     then Inl (ErrorObj (lit ''Empty response from local model''))
                     else parseStructuredResponse_local rawContent)))"

definition CONNECTION_ERROR_TEXT :: jsstring where
  "CONNECTION_ERROR_TEXT = [0x26A0, 0xFE0F] @ lit '' Connection Error: I cannot reach your local model. Please check if vLLM/Ollama is running on port 8000.''"

definition fallback :: "jsstring \<Rightarrow> thrown \<Rightarrow> json" where
  "fallback endpoint err =
     JObj [(lit ''content_for_user'', JStr CONNECTION_ERROR_TEXT),
           (lit ''internal_monologue'',
              JStr (lit ''Connection failed to '' @ endpoint @ lit ''. Error: '' @ error_string err)),
           (lit ''knowledge_point_id'', JStr (lit ''ERR_CONN'')),
           (lit ''student_mastery_score'', JNum 0 0),
           (lit ''suggested_next_state'', JStr (lit ''GUIDING'')),
           (lit ''is_direct_answer_attempt'', JBool False)]"

text \<open>The result, and the network calls made.\<close>

definition sendMessageToLocalLLM ::
  "engine \<Rightarrow> jsstring \<Rightarrow> jsstring \<Rightarrow> jsstring \<Rightarrow> ChatMessage list \<Rightarrow> jsstring
     \<Rightarrow> json \<times> net_call list" where
  "sendMessageToLocalLLM en endpoint modelName systemPrompt history userMessage =
     (let req = request_of modelName systemPrompt history userMessage
      in (case local_try en (fetch en endpoint req) of
            Inr v \<Rightarrow> v
          | Inl err \<Rightarrow> fallback endpoint err,
          [NetCall endpoint req]))"

section \<open>services/geminiService.ts: the parsing step\<close>

text \<open>The nested \<open>try\<close> blocks that parse the reply text of \<open>sendMessageToEduMind\<close>.\<close>

definition parseStructuredResponse_gemini :: "jsstring \<Rightarrow> thrown + json" where
  "parseStructuredResponse_gemini text = (case JSON_parse text of
       Some parsed \<Rightarrow> Inr parsed
     | None \<Rightarrow>
         (case JSON_parse (trim (strip_fences text)) of
            Some v \<Rightarrow> Inr v
          | None \<Rightarrow> Inl (ErrorObj (lit ''Failed to parse model response as JSON''))))"

section \<open>services/db.ts\<close>

record database =
  chats :: "jsstring \<rightharpoonup> ChatMessage list"
  mistakes :: "MistakeRecord list"

text \<open>How a request to IndexedDB ends: it succeeds, opening the database fails (with an
  error code), or the request itself fails.\<close>

datatype db_outcome = DbOk | DbOpenError jsstring | DbRequestError

datatype db_call =
    is_AddMistake: AddMistake MistakeRecord
  | SaveChatHistory jsstring "ChatMessage list"

definition addMistake :: "db_outcome \<Rightarrow> database \<Rightarrow> MistakeRecord \<Rightarrow> thrown + database" where
  "addMistake outcome db entry = (case outcome of
       DbOk \<Rightarrow> Inr (db\<lparr>mistakes := mistakes db @ [entry]\<rparr>)
     | DbOpenError code \<Rightarrow> Inl (Native (lit ''Database error: '' @ code))
     | DbRequestError \<Rightarrow> Inl (Native (lit ''Failed to add mistake'')))"

definition saveChatHistory ::
  "db_outcome \<Rightarrow> database \<Rightarrow> jsstring \<Rightarrow> ChatMessage list \<Rightarrow> thrown + database" where
  "saveChatHistory outcome db user msgs = (case outcome of
       DbOk \<Rightarrow> Inr (db\<lparr>chats := (chats db)(user \<mapsto> msgs)\<rparr>)
     | DbOpenError code \<Rightarrow> Inl (Native (lit ''Database error: '' @ code))
     | DbRequestError \<Rightarrow> Inl (Native (lit ''Failed to save chat'')))"

section \<open>App.tsx\<close>

record App =
  app_subject :: Subject
  app_mode :: TaskMode
  app_student :: StudentProfile
  apiUrl :: jsstring
  modelName :: jsstring
  messages :: "ChatMessage list"
  input :: jsstring
  isLoading :: bool
  currentState :: json
  lastMetadata :: jsval

text \<open>The state the hooks start from.\<close>

definition initial_App :: App where
  "initial_App =
     \<lparr>app_subject = MATH,
      app_mode = MISTAKE_ANALYSIS,
      app_student = \<lparr>name = lit ''Guest Student'', age = 12, grade = MIDDLE,
        masteryLevel = Intermediate, email = lit ''guest@edumind.ai''\<rparr>,
      apiUrl = lit ''http://localhost:8000/v1/chat/completions'',
      modelName = lit ''edu-32b-finetuned'',
      messages = [],
      input = [],
      isLoading = False,
      currentState = state_val GUIDING,
      lastMetadata = None\<rparr>"

text \<open>What one run of \<open>handleSend\<close> meets: the platform, the readings of \<open>Date.now()\<close>
  at each place it is called, and how the two database requests end.\<close>

record env =
  platform :: engine
  now_user_id :: int
  now_user_ts :: int
  now_mistake :: int
  now_bot_id :: int
  now_bot_ts :: int
  now_error_id :: int
  now_error_ts :: int
  add_outcome :: db_outcome
  save_outcome :: db_outcome

definition REDIRECT_TEXT :: jsstring where
  "REDIRECT_TEXT = lit ''I noticed you asked for the answer directly. Let's try to solve it step-by-step first. What is your first thought?''"

definition userMsg_of :: "env \<Rightarrow> App \<Rightarrow> ChatMessage" where
  "userMsg_of ev a =
     \<lparr>msg_id = Number_toString (now_user_id ev), role = User, content = Some (JStr (input a)),
      metadata = None, timestamp = now_user_ts ev\<rparr>"

definition errorMsg_of :: "env \<Rightarrow> ChatMessage" where
  "errorMsg_of ev =
     \<lparr>msg_id = Number_toString (now_error_id ev), role = Assistant,
      content = Some (JStr (lit ''System Error: Could not process logic.'')),
      metadata = None, timestamp = now_error_ts ev\<rparr>"

text \<open>Step 3: the state update. \<open>cur\<close> is \<open>currentState\<close> as the handler closed over it.\<close>

definition update_state :: "json \<Rightarrow> json \<Rightarrow> App \<Rightarrow> App" where
  "update_state cur response a =
     (case get_prop response (lit ''suggested_next_state'') of
        None \<Rightarrow> a
      | Some sug \<Rightarrow>
          if truthy (Some sug) \<and> \<not> strict_eq sug cur then a\<lparr>currentState := sug\<rparr> else a)"

text \<open>Step 4: the record written when the mistake trigger fires.\<close>

definition mistake_of :: "env \<Rightarrow> App \<Rightarrow> json \<Rightarrow> MistakeRecord" where
  "mistake_of ev a response =
     \<lparr>userEmail = email (app_student a),
      mr_subject = app_subject a,
      question = take 100 (input a),
      analysis = get_prop response (lit ''internal_monologue''),
      knowledgePoint = get_prop response (lit ''knowledge_point_id''),
      mr_timestamp = now_mistake ev\<rparr>"

definition mistake_trigger :: "App \<Rightarrow> json \<Rightarrow> bool" where
  "mistake_trigger a response \<longleftrightarrow>
     app_mode a = MISTAKE_ANALYSIS
     \<and> truthy (get_prop response (lit ''knowledge_point_id''))
     \<and> truthy (get_prop response (lit ''internal_monologue''))"

text \<open>Step 5: the text shown. \<open>cur\<close> is again the state the request was made in.\<close>

definition displayContent :: "json \<Rightarrow> json \<Rightarrow> jsval" where
  "displayContent cur response =
     (if truthy (get_prop response (lit ''is_direct_answer_attempt''))
         \<and> strict_eq cur (JStr (lit ''GUIDING''))
      then Some (JStr REDIRECT_TEXT)
      else get_prop response (lit ''content_for_user''))"

definition botMsg_of :: "env \<Rightarrow> json \<Rightarrow> json \<Rightarrow> ChatMessage" where
  "botMsg_of ev cur response =
     \<lparr>msg_id = Number_toString (now_bot_id ev + 1), role = Assistant,
      content = displayContent cur response, metadata = Some response,
      timestamp = now_bot_ts ev\<rparr>"

text \<open>
  The \<open>try\<close> block. The result is the state and database where the block ends, the
  database and network calls made, and the value thrown, if any. \<open>a\<close> is the state the
  handler closed over, \<open>a1\<close> the state after the first three \<open>set\<close> calls.
\<close>

definition respond ::
  "env \<Rightarrow> App \<Rightarrow> App \<Rightarrow> database \<Rightarrow> json \<Rightarrow> App \<times> database \<times> db_call list \<times> thrown option" where
  "respond ev a a1 db response =
     (let a2 = a1\<lparr>lastMetadata := Some response\<rparr>
      in case response of
           JNull \<Rightarrow>
             (a2, db, [], Some (Native (type_error_text (platform ev) (lit ''suggested_next_state''))))
         | _ \<Rightarrow>
             (let a3 = update_state (currentState a) response a2;
                  entry = mistake_of ev a response;
                  added = (if mistake_trigger a response
                           then (addMistake (add_outcome ev) db entry, [AddMistake entry])
                           else (Inr db, []))
              in case fst added of
                   Inl err \<Rightarrow> (a3, db, snd added, Some err)
                 | Inr db' \<Rightarrow>
                     (let botMsg = botMsg_of ev (currentState a) response;
                          finalMessages = messages a1 @ [botMsg];
                          a4 = a3\<lparr>messages := finalMessages\<rparr>;
                          save = SaveChatHistory (email (app_student a)) finalMessages
                      in case saveChatHistory (save_outcome ev) db' (email (app_student a))
                                finalMessages of
                           Inl err \<Rightarrow> (a4, db', snd added @ [save], Some err)
                         | Inr db'' \<Rightarrow> (a4, db'', snd added @ [save], None))))"

text \<open>The gateway call of a turn: its result and the network calls it makes.\<close>

definition gateway_call :: "env \<Rightarrow> App \<Rightarrow> json \<times> net_call list" where
  "gateway_call ev a =
     sendMessageToLocalLLM (platform ev) (apiUrl a) (modelName a)
       (constructSystemPrompt (app_subject a) (app_student a) (app_mode a) (currentState a))
       (messages a) (input a)"

definition handleSend :: "env \<Rightarrow> App \<Rightarrow> database \<Rightarrow> App \<times> database \<times> db_call list \<times> net_call list" where
  "handleSend ev a db =
     (if trim (input a) = [] \<or> isLoading a then (a, db, [], [])
      else
        (let userMsg = userMsg_of ev a;
             updatedMessages = messages a @ [userMsg];
             a1 = a\<lparr>messages := updatedMessages, input := [], isLoading := True\<rparr>;
             (response, net) = gateway_call ev a;
             (a', db', calls, thrown) = respond ev a a1 db response;
             a'' = (case thrown of
                      None \<Rightarrow> a'
                    | Some err \<Rightarrow> a'\<lparr>messages := messages a' @ [errorMsg_of ev]\<rparr>)
         in (a''\<lparr>isLoading := False\<rparr>, db', calls, net)))"

section \<open>Example turns\<close>

text \<open>The body of a chat-completions reply whose single choice carries the given text.\<close>

definition completion_body :: "jsstring \<Rightarrow> jsstring" where
  \<open>completion_body text =
     lit ''{"choices":[{"message":{"role":"assistant","content":''
     @ JSON_stringify (JStr text) @ lit ''}}]}''\<close>

definition demo_engine :: "fetch_result \<Rightarrow> engine" where
  "demo_engine res =
     \<lparr>fetch = (\<lambda>url req. res),
      syntax_error_text = (\<lambda>body. lit ''SyntaxError: Unexpected end of JSON input''),
      type_error_text = (\<lambda>k. lit ''TypeError: Cannot read properties of null'')\<rparr>"

definition demo_env :: "fetch_result \<Rightarrow> db_outcome \<Rightarrow> db_outcome \<Rightarrow> env" where
  "demo_env res add save =
     \<lparr>platform = demo_engine res,
      now_user_id = 1700000000000, now_user_ts = 1700000000000,
      now_mistake = 1700000000900,
      now_bot_id = 1700000000901, now_bot_ts = 1700000000901,
      now_error_id = 1700000000950, now_error_ts = 1700000000950,
      add_outcome = add, save_outcome = save\<rparr>"

definition demo_App :: App where
  "demo_App = initial_App\<lparr>input := lit ''What is 1/2 + 1/3? Just tell me.''\<rparr>"

definition empty_db :: database where
  "empty_db = \<lparr>chats = Map.empty, mistakes = []\<rparr>"

text \<open>A well-formed reply of the model: it flags a direct-answer attempt and suggests
  \<open>EXPLAINING\<close>.\<close>

definition demo_text :: jsstring where
  \<open>demo_text = lit ''{"content_for_user":"It is 5/6.","internal_monologue":"Asked for the answer.","knowledge_point_id":"MATH_05_FRACTIONS","student_mastery_score":40,"suggested_next_state":"EXPLAINING","is_direct_answer_attempt":true}''\<close>

definition demo_response :: json where
  "demo_response =
     JObj [(lit ''content_for_user'', JStr (lit ''It is 5/6.'')),
           (lit ''internal_monologue'', JStr (lit ''Asked for the answer.'')),
           (lit ''knowledge_point_id'', JStr (lit ''MATH_05_FRACTIONS'')),
           (lit ''student_mastery_score'', JNum 4 1),
           (lit ''suggested_next_state'', JStr (lit ''EXPLAINING'')),
           (lit ''is_direct_answer_attempt'', JBool True)]"

definition demo_ok :: fetch_result where
  "demo_ok = Responded 200 (lit ''OK'') (completion_body demo_text)"

definition demo_down :: fetch_result where
  "demo_down = Rejected (lit ''TypeError: Failed to fetch'')"

text \<open>A transcript of one earlier exchange: the learner's message, and the assistant
  turn that displayed the redirect text and carries \<open>demo_response\<close>.\<close>

definition demo_history :: "ChatMessage list" where
  "demo_history =
     [\<lparr>msg_id = lit ''1700000000000'', role = User,
       content = Some (JStr (lit ''What is 1/2 + 1/3? Just tell me.'')), metadata = None,
       timestamp = 1700000000000\<rparr>,
      \<lparr>msg_id = lit ''1700000000902'', role = Assistant,
       content = Some (JStr REDIRECT_TEXT), metadata = Some demo_response,
       timestamp = 1700000000901\<rparr>]"

section \<open>The recovery policy of the response validator\<close>

text \<open>What a validator does with a raw model text: it hands back the parsed value, or it
  signals the failure (each gateway throws its own \<open>Error\<close> for it).\<close>

datatype outcome = MalformedResponse | Parsed json

definition outcome_of :: "thrown + json \<Rightarrow> outcome" where
  "outcome_of r = (case r of Inl e \<Rightarrow> MalformedResponse | Inr v \<Rightarrow> Parsed v)"

text \<open>
  The recovery policy as the specification words it. Step 2 strips the leading and the
  trailing code-fence marker: three backticks, with the optional \<open>json\<close> tag, at the very
  start of the text, and three backticks at its very end. Nothing inside the text is
  touched.
\<close>

definition strip_outer_fences :: "jsstring \<Rightarrow> jsstring" where
  "strip_outer_fences raw =
     (let s = (if prefix FENCE_JSON raw then drop 7 raw
               else if prefix FENCE raw then drop 3 raw
               else raw)
      in if suffix FENCE s then take (length s - 3) s else s)"

text \<open>
  The order of the specification: (1) a direct parse of the raw text; (2) only if that
  fails, a parse of the text without its leading and trailing markers; (3) only if that
  fails too, \<open>MalformedResponse\<close>.
\<close>

definition recovery_policy :: "jsstring \<Rightarrow> outcome" where
  "recovery_policy raw = (case JSON_parse raw of
       Some v \<Rightarrow> Parsed v
     | None \<Rightarrow>
         (case JSON_parse (strip_outer_fences raw) of
            Some v \<Rightarrow> Parsed v
          | None \<Rightarrow> MalformedResponse))"

text \<open>A code unit that takes part in no token: at the end of a text it cannot continue a
  string, a number or a literal name, and it starts none.\<close>

definition inert :: "16 word \<Rightarrow> bool" where
  "inert c \<longleftrightarrow> \<not> is_digit c \<and> hex_val c = None \<and> unescape c = None
     \<and> c \<notin> set [0x22, 0x5C, 0x75, 0x2E, 0x65, 0x45, 0x2B, 0x2D, 0x7B, 0x7D, 0x5B, 0x5D, 0x3A, 0x2C]
     \<and> c \<notin> set (lit ''true'') \<and> c \<notin> set (lit ''false'') \<and> c \<notin> set (lit ''null'')"

text \<open>A well-formed reply whose text for the learner mentions a fence marker, the record it
  denotes, and the record with the marker gone from the text.\<close>

definition fence_text :: jsstring where
  \<open>fence_text = lit ''{"content_for_user":"Write ```json before the data.","internal_monologue":"Format question.","knowledge_point_id":"ENG_01","student_mastery_score":50,"suggested_next_state":"EXPLAINING","is_direct_answer_attempt":false}''\<close>

definition fence_response :: json where
  "fence_response =
     JObj [(lit ''content_for_user'', JStr (lit ''Write ```json before the data.'')),
           (lit ''internal_monologue'', JStr (lit ''Format question.'')),
           (lit ''knowledge_point_id'', JStr (lit ''ENG_01'')),
           (lit ''student_mastery_score'', JNum 5 1),
           (lit ''suggested_next_state'', JStr (lit ''EXPLAINING'')),
           (lit ''is_direct_answer_attempt'', JBool False)]"

definition fence_response_cut :: json where
  "fence_response_cut =
     JObj [(lit ''content_for_user'', JStr (lit ''Write  before the data.'')),
           (lit ''internal_monologue'', JStr (lit ''Format question.'')),
           (lit ''knowledge_point_id'', JStr (lit ''ENG_01'')),
           (lit ''student_mastery_score'', JNum 5 1),
           (lit ''suggested_next_state'', JStr (lit ''EXPLAINING'')),
           (lit ''is_direct_answer_attempt'', JBool False)]"

text \<open>The same text with the marker cut out of it, and the same reply as a model wraps it
  in a fenced block.\<close>

definition fence_text_cut :: jsstring where
  \<open>fence_text_cut = lit ''{"content_for_user":"Write  before the data.","internal_monologue":"Format question.","knowledge_point_id":"ENG_01","student_mastery_score":50,"suggested_next_state":"EXPLAINING","is_direct_answer_attempt":false}''\<close>

definition fence_text_fenced :: jsstring where
  "fence_text_fenced = lit ''```json'' @ NL @ fence_text @ NL @ lit ''```''"

text \<open>Replies of the endpoint that the gateway cannot use: a server error, an empty body, a
  completion without a choice, and a completion whose text is not JSON.\<close>

definition demo_error_status :: fetch_result where
  "demo_error_status = Responded 500 (lit ''Internal Server Error'') (lit ''upstream failed'')"

definition demo_empty_body :: fetch_result where
  "demo_empty_body = Responded 200 (lit ''OK'') []"

definition demo_no_choice :: fetch_result where
  \<open>demo_no_choice = Responded 200 (lit ''OK'') (lit ''{"choices":[]}'')\<close>

definition demo_not_json :: fetch_result where
  "demo_not_json = Responded 200 (lit ''OK'') (completion_body (lit ''not json''))"

section \<open>Strings: literals, sublists, numbers\<close>

lemma unat_of_char16: "unat (of_char c :: 16 word) = of_char c"
proof -
  have "(of_char c :: nat) < 2 ^ 16"
    by (rule less_trans [OF nat_of_char_less_256]) simp
  then have "unat (of_nat (of_char c) :: 16 word) = of_char c"
    by (simp add: unat_of_nat)
  then show ?thesis by (simp add: of_nat_of_char)
qed

lemma inj_lit_char: "inj (of_char :: char \<Rightarrow> 16 word)"
  by (rule injI) (metis unat_of_char16 of_char_eq_iff)

lemma of_char16_eq_iff [simp]: "(of_char c :: 16 word) = of_char d \<longleftrightarrow> c = d"
  using inj_lit_char by (auto dest: injD)

lemma lit_nil [simp]: "lit [] = []"
  by (simp add: lit_def)

lemma lit_is_Nil [simp]: "lit s = [] \<longleftrightarrow> s = []"
  by (simp add: lit_def)

lemma lit_eq_iff [simp]: "lit a = lit b \<longleftrightarrow> a = b"
  unfolding lit_def using inj_lit_char by (simp add: inj_map_eq_map)

lemma set_lit: "set (lit s) = of_char ` set s"
  by (simp add: lit_def)

lemma lit_mem_iff [simp]: "of_char c \<in> set (lit s) \<longleftrightarrow> c \<in> set s"
  unfolding set_lit using inj_lit_char by (simp only: inj_image_mem_iff)

lemma backtick_lit: "0x60 \<in> set (lit s) \<longleftrightarrow> CHR 0x60 \<in> set s"
proof -
  have "(0x60 :: 16 word) = of_char (CHR 0x60)" by simp
  then show ?thesis by (simp only: lit_mem_iff)
qed

lemma NL_lit: "NL = lit [CHR 0x0A]"
  by (simp add: NL_def lit_def)

lemma lit_fuse: "lit a @ lit b = lit (a @ b)" "lit a @ (lit b @ c) = lit (a @ b) @ c"
  by (simp_all add: lit_def)

lemma sublist_map_inj:
  assumes "inj f"
  shows "sublist (map f k) (map f s) = sublist k s"
proof
  assume "sublist (map f k) (map f s)"
  then obtain ps ss where "map f s = ps @ map f k @ ss"
    by (auto simp: sublist_def)
  then obtain ps' r where s: "s = ps' @ r" and "map f r = map f k @ ss"
    by (metis map_eq_append_conv)
  then obtain k' ss' where r: "r = k' @ ss'" and "map f k' = map f k"
    by (metis map_eq_append_conv)
  with assms have "k' = k" by (simp add: inj_map_eq_map)
  with s r show "sublist k s" by (auto simp: sublist_def)
next
  assume "sublist k s"
  then show "sublist (map f k) (map f s)" by (rule map_mono_sublist)
qed

lemma sublist_lit: "sublist (lit k) (lit s) = sublist k s"
  unfolding lit_def by (rule sublist_map_inj [OF inj_lit_char])

lemmas str_eval = lit_fuse sublist_lit append.simps

text \<open>A sentence that lacks a character cannot lie across it.\<close>

lemma sublist_skip_char:
  assumes "sublist k (a @ d # b)" and "d \<notin> set k"
  shows "sublist k a \<or> sublist k b"
proof -
  from assms(1) consider "sublist k a" | "sublist k (d # b)"
    | k1 k2 where "k = k1 @ k2" "suffix k1 a" "prefix k2 (d # b)"
    by (auto simp: sublist_append)
  then show ?thesis
  proof cases
    case 1 then show ?thesis by simp
  next
    case 2
    then have "prefix k (d # b) \<or> sublist k b" by (simp add: sublist_Cons_right)
    with assms(2) show ?thesis by (cases k) auto
  next
    case 3
    with assms(2) show ?thesis by (cases k2) auto
  qed
qed

lemma sublist_skip_chars:
  assumes "sublist k (a @ (d # ds) @ b)" and "set (d # ds) \<inter> set k = {}"
  shows "sublist k a \<or> sublist k b"
  using assms
proof (induction ds arbitrary: a d)
  case Nil
  then show ?case using sublist_skip_char [of k a d b] by simp
next
  case (Cons d' ds)
  from Cons.prems have "sublist k a \<or> sublist k ((d' # ds) @ b)"
    using sublist_skip_char [of k a d "(d' # ds) @ b"] by simp
  moreover have "sublist k b" if "sublist k ((d' # ds) @ b)"
  proof -
    from that Cons.prems(2) have "sublist k [] \<or> sublist k b"
      using Cons.IH [of "[]" d'] by simp
    then show ?thesis by auto
  qed
  ultimately show ?case by blast
qed

lemma digits_nonempty: "digits n \<noteq> []"
  by (subst digits.simps) simp

lemma digit_char:
  assumes "n < 10"
  shows "is_digit (0x30 + of_nat n)"
proof -
  have "list_all (\<lambda>m. is_digit (0x30 + of_nat m)) [0..<10]"
    by (simp add: upt_rec is_digit_def)
  with assms show ?thesis by (simp add: list_all_iff)
qed

lemma digits_are_digits: "c \<in> set (digits n) \<Longrightarrow> is_digit c"
proof (induction n arbitrary: c rule: digits.induct)
  case (1 n)
  show ?case
  proof (cases "n < 10")
    case True
    with "1.prems" show ?thesis by (subst (asm) digits.simps) (simp add: digit_char)
  next
    case False
    with "1.prems" have "c \<in> set (digits (n div 10)) \<or> c = 0x30 + of_nat (n mod 10)"
      by (subst (asm) digits.simps) auto
    with False "1.IH" show ?thesis by (auto simp: digit_char)
  qed
qed

text \<open>A sentence without digits that does not end in a minus sign cannot overlap a
  printed integer.\<close>

lemma sublist_skip_number:
  assumes sub: "sublist k (a @ Number_toString i @ b)"
    and nodigit: "\<forall>c\<in>set k. \<not> is_digit c"
    and last: "k \<noteq> []" "last k \<noteq> 0x2D"
  shows "sublist k a \<or> sublist k b"
proof -
  obtain d ds where ds: "digits (nat \<bar>i\<bar>) = d # ds"
    using digits_nonempty by (cases "digits (nat \<bar>i\<bar>)") auto
  have disj: "set (d # ds) \<inter> set k = {}"
    using nodigit digits_are_digits [of _ "nat \<bar>i\<bar>"] ds by auto
  show ?thesis
  proof (cases "i < 0")
    case False
    with sub ds have "sublist k (a @ (d # ds) @ b)" by (simp add: Number_toString_def)
    then show ?thesis using disj by (rule sublist_skip_chars)
  next
    case True
    with sub ds have "sublist k ((a @ [0x2D]) @ (d # ds) @ b)"
      by (simp add: Number_toString_def)
    then have "sublist k (a @ [0x2D]) \<or> sublist k b" using disj by (rule sublist_skip_chars)
    moreover have "sublist k a" if "sublist k (a @ [0x2D])"
    proof -
      from that consider "sublist k a" | "sublist k [0x2D]"
        | k1 k2 where "k = k1 @ k2" "suffix k1 a" "prefix k2 [0x2D]"
        by (auto simp: sublist_append)
      then show ?thesis
      proof cases
        case 1 then show ?thesis .
      next
        case 2
        with last show ?thesis by (cases k) (auto simp: sublist_Cons_right)
      next
        case 3
        with last show ?thesis by (cases k2) auto
      qed
    qed
    ultimately show ?thesis by blast
  qed
qed

lemma is_digit_of_char: "is_digit (of_char c) \<longleftrightarrow> c \<in> set ''0123456789''"
proof -
  have "is_digit (of_char c) \<longleftrightarrow> (of_char c :: 16 word) \<in> of_char ` set ''0123456789''"
    unfolding is_digit_def by simp
  also have "\<dots> \<longleftrightarrow> c \<in> set ''0123456789''"
    using inj_lit_char by (simp only: inj_image_mem_iff)
  finally show ?thesis .
qed

lemma key_shape_lit:
  assumes "k \<noteq> []" "CHR 0x0A \<notin> set k" "\<forall>c\<in>set k. c \<notin> set ''0123456789''"
    "last k \<noteq> CHR ''-''"
  shows "key_shape (lit k)"
proof -
  have nl: "(0x0A :: 16 word) = of_char (CHR 0x0A)"
    and minus: "(0x2D :: 16 word) = of_char (CHR ''-'')"
    by simp_all
  have set_lit: "set (lit k) = of_char ` set k"
    by (simp add: lit_def)
  have "lit k \<noteq> []"
    using assms(1) by (simp add: lit_def)
  moreover have "0x0A \<notin> set (lit k)"
    unfolding set_lit nl using assms(2) inj_lit_char by (simp only: inj_image_mem_iff) simp
  moreover have "\<forall>c\<in>set (lit k). \<not> is_digit c"
    unfolding set_lit using assms(3) by (simp only: ball_simps is_digit_of_char)
  moreover have "last (lit k) \<noteq> 0x2D"
  proof -
    have "last (lit k) = of_char (last k)"
      using assms(1) by (simp add: lit_def last_map)
    then show ?thesis
      unfolding minus using assms(4) by (simp only: of_char16_eq_iff) simp
  qed
  ultimately show ?thesis by (simp only: key_shape_def) simp
qed

section \<open>The instruction text, line by line\<close>

lemma sublist_join_lines:
  assumes "sublist k (join_lines ls)" and "0x0A \<notin> set k" and "k \<noteq> []"
  shows "\<exists>l\<in>set ls. sublist k l"
  using assms
proof (induction ls rule: join_lines.induct)
  case 1
  then show ?case by simp
next
  case (2 l)
  then show ?case by simp
next
  case (3 l v va)
  from "3.prems" have "sublist k l \<or> sublist k (join_lines (v # va))"
    using sublist_skip_char [of k l "0x0A" "join_lines (v # va)"] by (simp add: NL_def)
  with 3 show ?case by auto
qed

lemma sublist_in_join_lines: "l \<in> set ls \<Longrightarrow> sublist l (join_lines ls)"
proof (induction ls rule: join_lines.induct)
  case (3 l' v va)
  have "sublist l (l' @ NL @ join_lines (v # va))"
  proof (cases "l = l'")
    case True
    then show ?thesis by simp
  next
    case False
    with 3 have "sublist l (join_lines (v # va))" by auto
    then have "sublist l ((l' @ NL) @ join_lines (v # va))"
      by (meson sublist_append_leftI sublist_order.order_trans)
    then show ?thesis by simp
  qed
  then show ?case by simp
qed auto

lemma constructSystemPrompt_lines:
  "constructSystemPrompt subject student mode (state_val s)
     = join_lines (prompt_lines subject student mode s)"
  by (cases s)
    (simp_all add: constructSystemPrompt_def prompt_lines_def head_lines_def block_lines_def
      format_lines_def behavioralDirectives_def audienceConstraint_def state_val_def
      guiding_block_def explaining_block_def quizzing_block_def outputFormat_def
      lit_def NL_def)

lemma directive_keywords_all: "k \<in> set (directive_keywords s g) \<Longrightarrow> k \<in> set all_keys"
  by (cases s; cases g) (auto simp: all_keys_def)

lemmas key_unfold = all_keys_def directive_keywords.simps Grade_str.simps

lemma all_keys_shape: "\<forall>k\<in>set all_keys. key_shape k"
proof -
  have "list_all key_shape all_keys"
    unfolding key_unfold str_eval list.pred_inject
    by (intro conjI; (rule key_shape_lit)?; code_simp)
  then show ?thesis by (simp only: list_all_iff)
qed

text \<open>No directive sentence occurs in a line outside the state's block.\<close>

lemma no_key_format_lines:
  "list_all (\<lambda>k. list_all (\<lambda>l. \<not> sublist k l) ([lit ''      '', lit ''  ''] @ format_lines))
     all_keys"
  unfolding key_unfold format_lines_def
  by (simp only: str_eval list.pred_inject; code_simp)

lemma no_key_head_lines:
  "list_all (\<lambda>k. list_all (\<lambda>l. \<not> sublist k l) (head_lines subject student mode)) all_keys"
proof -
  have a: "list_all (\<lambda>k. \<not> sublist k (baseIdentity subject)) all_keys"
    unfolding key_unfold baseIdentity_def
    by (cases subject; simp only: Subject_str.simps str_eval list.pred_inject; code_simp)
  have b1: "list_all (\<lambda>k. \<not> sublist k
      (lit ''  Your student is in '' @ Grade_str g @ lit '' (approx '')) all_keys" for g
    unfolding key_unfold
    by (cases g; simp only: Grade_str.simps str_eval list.pred_inject; code_simp)
  have b2: "list_all (\<lambda>k. \<not> sublist k (lit '' years old). '')) all_keys"
    unfolding key_unfold
    by (simp only: str_eval list.pred_inject; code_simp)
  have b: "list_all (\<lambda>k. \<not> sublist k
      ((lit ''  Your student is in '' @ Grade_str (grade student) @ lit '' (approx '')
        @ Number_toString (age student) @ lit '' years old). '')) all_keys"
    unfolding list_all_iff
  proof
    fix k assume k: "k \<in> set all_keys"
    then have "key_shape k" using all_keys_shape by blast
    moreover from k have "\<not> sublist k
        (lit ''  Your student is in '' @ Grade_str (grade student) @ lit '' (approx '')"
      using b1 [of "grade student"] by (auto simp: list_all_iff)
    moreover from k have "\<not> sublist k (lit '' years old). '')"
      using b2 by (auto simp: list_all_iff)
    ultimately show "\<not> sublist k
        ((lit ''  Your student is in '' @ Grade_str (grade student) @ lit '' (approx '')
          @ Number_toString (age student) @ lit '' years old). '')"
      using sublist_skip_number unfolding key_shape_def by blast
  qed
  have c: "list_all (\<lambda>k. \<not> sublist k
      (lit ''  Adjust your vocabulary and tone to be age-appropriate. '')) all_keys"
    unfolding key_unfold
    by (simp only: str_eval list.pred_inject; code_simp)
  have d: "list_all (\<lambda>k. \<not> sublist k
      (lit ''  Current Mastery Level: '' @ MasteryLevel_str (masteryLevel student) @ lit ''.''))
      all_keys"
    unfolding key_unfold
    by (cases "masteryLevel student";
        simp only: MasteryLevel_str.simps str_eval list.pred_inject; code_simp)
  have e1: "list_all (\<lambda>k. \<not> sublist k (lit ''  ''
      @ lit ''You are analyzing a mistake. Find the root cause of the error.'')) all_keys"
    unfolding key_unfold
    by (simp only: str_eval list.pred_inject; code_simp)
  have e2: "list_all (\<lambda>k. \<not> sublist k (lit ''  ''
      @ lit ''You are explaining a new concept.'')) all_keys"
    unfolding key_unfold
    by (simp only: str_eval list.pred_inject; code_simp)
  have e: "list_all (\<lambda>k. \<not> sublist k (lit ''  '' @ modeDirectives mode)) all_keys"
    using e1 e2 by (cases "mode = MISTAKE_ANALYSIS") (simp_all only: modeDirectives_def if_True if_False simp_thms)
  have f: "list_all (\<lambda>k. \<not> sublist k (lit ''  '')) all_keys"
    unfolding key_unfold
    by (simp only: str_eval list.pred_inject; code_simp)
  from a b c d e f show ?thesis
    unfolding head_lines_def list_all_iff by simp
qed

lemmas block_unfold = PedagogicalState.distinct PedagogicalState.case simp_thms
  directive_keywords.simps Grade_str.simps str_eval list.pred_inject

lemma no_key_guiding_block:
  "s' \<noteq> GUIDING \<Longrightarrow>
   list_all (\<lambda>k. list_all (\<lambda>l. \<not> sublist k l) (block_lines GUIDING g)) (directive_keywords s' g')"
  unfolding block_lines_def
  by (cases s'; cases g'; simp only: block_unfold; code_simp)

lemma no_key_explaining_block:
  "s' \<noteq> EXPLAINING \<Longrightarrow>
   list_all (\<lambda>k. list_all (\<lambda>l. \<not> sublist k l) (block_lines EXPLAINING g)) (directive_keywords s' g')"
  unfolding block_lines_def
  by (cases s'; cases g; simp only: block_unfold; code_simp)

lemma no_key_quizzing_block:
  "s' \<noteq> QUIZZING \<Longrightarrow>
   list_all (\<lambda>k. list_all (\<lambda>l. \<not> sublist k l) (block_lines QUIZZING g)) (directive_keywords s' g')"
  unfolding block_lines_def
  by (cases s'; cases g'; simp only: block_unfold; code_simp)

lemma no_key_other_block:
  "s' \<noteq> s \<Longrightarrow>
   list_all (\<lambda>k. list_all (\<lambda>l. \<not> sublist k l) (block_lines s g)) (directive_keywords s' g')"
  by (cases s) (auto intro: no_key_guiding_block no_key_explaining_block no_key_quizzing_block)

lemma own_key_in_block:
  "list_all (\<lambda>k. list_ex (\<lambda>l. sublist k l) (block_lines s g)) (directive_keywords s g)"
  unfolding block_lines_def
  by (cases s; cases g;
      simp only: PedagogicalState.case directive_keywords.simps Grade_str.simps str_eval
        list.pred_inject list_ex_Nil_iff list_ex_Cons_iff;
      code_simp)

section \<open>Claims about the instruction builder\<close>

text \<open>
  Claim C6. For each of the three pedagogical states, the instruction text built by
  \<open>constructSystemPrompt\<close> contains every directive sentence of that state's own
  block (for the profile's grade), and contains no directive sentence of either other
  state, whatever the subject, profile and task mode.
\<close>

theorem C6_state_directives:
  "(\<forall>k\<in>set (directive_keywords s (grade student)).
      sublist k (constructSystemPrompt subject student mode (state_val s)))
   \<and> (\<forall>s' g'. s' \<noteq> s \<longrightarrow> (\<forall>k\<in>set (directive_keywords s' g').
      \<not> sublist k (constructSystemPrompt subject student mode (state_val s))))"
proof (intro conjI ballI allI impI)
  fix k assume "k \<in> set (directive_keywords s (grade student))"
  then obtain l where "l \<in> set (block_lines s (grade student))" "sublist k l"
    using own_key_in_block [of s "grade student"] by (auto simp: list_all_iff list_ex_iff)
  then have "l \<in> set (prompt_lines subject student mode s)"
    by (simp add: prompt_lines_def)
  then have "sublist l (join_lines (prompt_lines subject student mode s))"
    by (rule sublist_in_join_lines)
  with \<open>sublist k l\<close> show "sublist k (constructSystemPrompt subject student mode (state_val s))"
    unfolding constructSystemPrompt_lines by (rule sublist_order.order_trans)
next
  fix s' g' k
  assume ne: "s' \<noteq> s" and k: "k \<in> set (directive_keywords s' g')"
  from k have ak: "k \<in> set all_keys" by (rule directive_keywords_all)
  then have shape: "key_shape k" using all_keys_shape by blast
  show "\<not> sublist k (constructSystemPrompt subject student mode (state_val s))"
  proof
    assume "sublist k (constructSystemPrompt subject student mode (state_val s))"
    then have "sublist k (join_lines (prompt_lines subject student mode s))"
      by (simp only: constructSystemPrompt_lines)
    with shape obtain l where l: "l \<in> set (prompt_lines subject student mode s)" "sublist k l"
      using sublist_join_lines unfolding key_shape_def by blast
    from l(1) consider "l \<in> set (head_lines subject student mode)"
      | "l \<in> set (block_lines s (grade student))"
      | "l \<in> set ([lit ''      '', lit ''  ''] @ format_lines)"
      unfolding prompt_lines_def by auto
    then show False
    proof cases
      case 1
      with ak l(2) show False using no_key_head_lines [of subject student mode]
        unfolding list_all_iff by blast
    next
      case 2
      with k l(2) show False using no_key_other_block [OF ne, of "grade student" g']
        unfolding list_all_iff by blast
    next
      case 3
      with ak l(2) show False using no_key_format_lines
        unfolding list_all_iff by blast
    qed
  qed
qed

theorem C6_state_directives_witness:
  "sublist (lit ''DO NOT provide direct answers.'')
     (constructSystemPrompt MATH
        \<lparr>name = lit ''Guest Student'', age = 12, grade = MIDDLE, masteryLevel = Intermediate,
         email = lit ''guest@edumind.ai''\<rparr> MISTAKE_ANALYSIS (state_val GUIDING))
   \<and> \<not> sublist (lit ''Link the concept to real-world examples.'')
     (constructSystemPrompt MATH
        \<lparr>name = lit ''Guest Student'', age = 12, grade = MIDDLE, masteryLevel = Intermediate,
         email = lit ''guest@edumind.ai''\<rparr> MISTAKE_ANALYSIS (state_val GUIDING))"
  using C6_state_directives [of GUIDING
      "\<lparr>name = lit ''Guest Student'', age = 12, grade = MIDDLE, masteryLevel = Intermediate,
         email = lit ''guest@edumind.ai''\<rparr>" MATH MISTAKE_ANALYSIS]
  by (auto dest: spec [of _ EXPLAINING])

text \<open>
  Claim C7 says that a \<open>PRIMARY\<close> profile injects a directive to use concrete analogies
  and a \<open>MIDDLE\<close> profile a directive to emphasise formal definitions. In the code the
  grade reaches the instruction text only as its own name: once in the audience line,
  and once more in the \<open>EXPLAINING\<close> block. Everything around the name is the same
  text for both grades, so no sentence is present for one grade and absent for the other.
\<close>

theorem C7_grade_enters_only_by_name:
  "\<exists>pre mid post. \<forall>g.
     constructSystemPrompt subject (student\<lparr>grade := g\<rparr>) mode (state_val s)
       = pre @ Grade_str g @ mid @ (if s = EXPLAINING then Grade_str g else []) @ post"
proof (cases "s = EXPLAINING")
  case True
  show ?thesis
    apply (rule exI [of _ "baseIdentity subject @ NL @ lit ''  Your student is in ''"])
    apply (rule exI [of _ "lit '' (approx '' @ Number_toString (age student)
     @ lit '' years old). '' @ NL
     @ lit ''  Adjust your vocabulary and tone to be age-appropriate. '' @ NL
     @ lit ''  Current Mastery Level: '' @ MasteryLevel_str (masteryLevel student) @ lit ''.'' @ NL
     @ lit ''  '' @ modeDirectives mode @ NL @ lit ''  ''
     @ NL @ lit ''      CURRENT STATE: [EXPLAINING/DEEP DIVE]'' @ NL
     @ lit ''      - The student has shown confusion or explicitly asked for an explanation.'' @ NL
     @ lit ''      - Provide clear, conceptual explanations using analogies suitable for a ''"])
    apply (rule exI [of _ "lit '' student.'' @ NL
     @ lit ''      - Link the concept to real-world examples.'' @ NL
     @ lit ''      '' @ NL @ lit ''  '' @ outputFormat"])
    using True
    apply (simp add: constructSystemPrompt_def audienceConstraint_def behavioralDirectives_def
        state_val_def explaining_block_def lit_def)
    done
next
  case False
  show ?thesis
    apply (rule exI [of _ "baseIdentity subject @ NL @ lit ''  Your student is in ''"])
    apply (rule exI [of _ "lit '' (approx '' @ Number_toString (age student)
     @ lit '' years old). '' @ NL
     @ lit ''  Adjust your vocabulary and tone to be age-appropriate. '' @ NL
     @ lit ''  Current Mastery Level: '' @ MasteryLevel_str (masteryLevel student) @ lit ''.'' @ NL
     @ lit ''  '' @ modeDirectives mode @ NL
     @ lit ''  '' @ behavioralDirectives student (state_val s) @ NL
     @ lit ''  '' @ outputFormat"])
    apply (rule exI [of _ "[]"])
    using False
    apply (cases s)
    apply (simp_all add: constructSystemPrompt_def audienceConstraint_def behavioralDirectives_def
        state_val_def lit_def)
    done
qed

section \<open>Run-time values, trimming and the fence pattern\<close>

lemma truthy_simps [simp]:
  "truthy None = False"
  "truthy (Some JNull) = False"
  "truthy (Some (JBool b)) = b"
  "truthy (Some (JNum m e)) = (m \<noteq> 0)"
  "truthy (Some (JStr s)) = (s \<noteq> [])"
  "truthy (Some (JArr xs)) = True"
  "truthy (Some (JObj ps)) = True"
  by (simp_all add: truthy_def)

lemma get_prop_JNull [simp]: "get_prop JNull k = None"
  by (simp add: get_prop_def)

lemma strict_eq_imp_eq: "strict_eq a b \<Longrightarrow> a = b"
  by (cases a; cases b) auto

lemma FENCE_has_backtick: "prefix FENCE s \<Longrightarrow> 0x60 \<in> set s"
  by (auto simp: FENCE_def lit_def prefix_def)

lemma FENCE_JSON_has_backtick: "prefix FENCE_JSON s \<Longrightarrow> 0x60 \<in> set s"
  by (auto simp: FENCE_JSON_def lit_def prefix_def)

text \<open>
  A text without a backtick has no fence to remove.
\<close>

lemma strip_fences_no_backtick: "0x60 \<notin> set s \<Longrightarrow> strip_fences s = s"
proof (induction s)
  case Nil
  then show ?case by simp
next
  case (Cons c cs)
  have "\<not> prefix (FENCE_JSON @ NL) (c # cs)"
    using Cons.prems FENCE_JSON_has_backtick [of "c # cs"] by (auto dest: append_prefixD)
  moreover have "\<not> prefix FENCE_JSON (c # cs)"
    using Cons.prems FENCE_JSON_has_backtick [of "c # cs"] by auto
  moreover have "\<not> prefix (NL @ FENCE) (c # cs)"
    using Cons.prems FENCE_has_backtick [of cs] by (auto simp: NL_def)
  moreover have "\<not> prefix FENCE (c # cs)"
    using Cons.prems FENCE_has_backtick [of "c # cs"] by auto
  ultimately show ?case using Cons by simp
qed

lemma trim_id:
  assumes "s \<noteq> []" "\<not> is_js_ws (hd s)" "\<not> is_js_ws (last s)"
  shows "trim s = s"
proof -
  have "dropWhile is_js_ws s = s"
    using assms by (cases s) auto
  moreover have "dropWhile is_js_ws (rev s) = rev s"
    using assms by (cases "rev s") (auto simp: last_rev [symmetric] simp del: last_rev)
  ultimately show ?thesis by (simp add: trim_def)
qed

section \<open>The example turn, evaluated\<close>

lemmas json_eval = JSON_parse_def lit_def is_json_ws_def is_digit_def lex_number_def int_part_def
  frac_part_def exp_part_def exp_digits_def digits_val_def norm_dec.simps hex4_def hex_val_def
  unescape_def

lemma demo_body: "JSON_parse (completion_body demo_text) =
  Some (JObj [(lit ''choices'', JArr [JObj [(lit ''message'',
     JObj [(lit ''role'', JStr (lit ''assistant'')), (lit ''content'', JStr demo_text)])]])])"
  by (simp add: completion_body_def demo_text_def json_eval escape_unit_def
     is_high_surrogate_def is_low_surrogate_def)

lemma demo_parse: "JSON_parse (trim (strip_fences demo_text)) = Some demo_response"
proof -
  have "0x60 \<notin> set demo_text"
    unfolding demo_text_def backtick_lit by code_simp
  then have "strip_fences demo_text = demo_text"
    by (rule strip_fences_no_backtick)
  moreover have "trim demo_text = demo_text"
    by (rule trim_id) (simp_all add: demo_text_def lit_def is_js_ws_def js_ws_units_def)
  moreover have "JSON_parse demo_text = Some demo_response"
    by (simp add: demo_text_def demo_response_def json_eval)
  ultimately show ?thesis by simp
qed

lemma demo_gateway: "fst (gateway_call (demo_env demo_ok add save) demo_App) = demo_response"
  by (simp add: gateway_call_def sendMessageToLocalLLM_def demo_env_def demo_engine_def demo_ok_def
      local_try_def demo_body demo_parse rawContent_of_def opt_chain_def get_prop_def
      get_index0_def parseStructuredResponse_local_def) (simp add: demo_text_def lit_def)

lemma demo_stringify: "JSON_stringify demo_response = demo_text"
  by (simp add: demo_response_def demo_text_def lit_def escape_unit_def is_high_surrogate_def
      is_low_surrogate_def Number_toString_dec_def digits.simps)

lemma demo_proceeds: "trim (input demo_App) \<noteq> []" "\<not> isLoading demo_App"
proof -
  have "trim (input demo_App) = input demo_App"
    by (rule trim_id) (simp_all add: demo_App_def lit_def is_js_ws_def js_ws_units_def)
  then show "trim (input demo_App) \<noteq> []"
    by (simp add: demo_App_def lit_def)
  show "\<not> isLoading demo_App"
    by (simp add: demo_App_def initial_App_def)
qed

lemma demo_props:
  "get_prop demo_response (lit ''suggested_next_state'') = Some (JStr (lit ''EXPLAINING''))"
  "get_prop demo_response (lit ''is_direct_answer_attempt'') = Some (JBool True)"
  "get_prop demo_response (lit ''knowledge_point_id'') = Some (JStr (lit ''MATH_05_FRACTIONS''))"
  "get_prop demo_response (lit ''internal_monologue'') = Some (JStr (lit ''Asked for the answer.''))"
  "get_prop demo_response (lit ''content_for_user'') = Some (JStr (lit ''It is 5/6.''))"
  by (simp_all add: demo_response_def get_prop_def)

section \<open>One turn of the dialogue controller\<close>

lemma handleSend_unfold:
  assumes "trim (input a) \<noteq> []" "\<not> isLoading a"
  shows "handleSend ev a db =
    (case respond ev a (a\<lparr>messages := messages a @ [userMsg_of ev a], input := [], isLoading := True\<rparr>)
            db (fst (gateway_call ev a)) of
       (a', db', calls, thrown) \<Rightarrow>
         ((case thrown of None \<Rightarrow> a' | Some err \<Rightarrow> a'\<lparr>messages := messages a' @ [errorMsg_of ev]\<rparr>)
            \<lparr>isLoading := False\<rparr>, db', calls, snd (gateway_call ev a)))"
  using assms by (simp add: handleSend_def Let_def split: prod.splits)

text \<open>
  The three ways the \<open>try\<close> block of a turn can end: on a \<open>null\<close> response, on a
  rejected write, or at its last statement.
\<close>

lemma respond_cases:
  fixes ev a a1 db response
  defines "a3 \<equiv> update_state (currentState a) response (a1\<lparr>lastMetadata := Some response\<rparr>)"
    and "entry \<equiv> mistake_of ev a response"
    and "final \<equiv> messages a1 @ [botMsg_of ev (currentState a) response]"
    and "save \<equiv> SaveChatHistory (email (app_student a)) (messages a1 @ [botMsg_of ev (currentState a) response])"
  shows "respond ev a a1 db response =
    (if response = JNull then
       (a1\<lparr>lastMetadata := Some response\<rparr>, db, [],
        Some (Native (type_error_text (platform ev) (lit ''suggested_next_state''))))
     else if mistake_trigger a response then
       (case addMistake (add_outcome ev) db entry of
          Inl err \<Rightarrow> (a3, db, [AddMistake entry], Some err)
        | Inr db' \<Rightarrow>
            (case saveChatHistory (save_outcome ev) db' (email (app_student a)) final of
               Inl err \<Rightarrow> (a3\<lparr>messages := final\<rparr>, db', [AddMistake entry, save], Some err)
             | Inr db'' \<Rightarrow> (a3\<lparr>messages := final\<rparr>, db'', [AddMistake entry, save], None)))
     else
       (case saveChatHistory (save_outcome ev) db (email (app_student a)) final of
          Inl err \<Rightarrow> (a3\<lparr>messages := final\<rparr>, db, [save], Some err)
        | Inr db'' \<Rightarrow> (a3\<lparr>messages := final\<rparr>, db'', [save], None)))"
  unfolding a3_def entry_def final_def save_def
  by (cases response) (simp_all add: respond_def Let_def split: sum.splits)

lemma update_state_fields [simp]:
  "messages (update_state cur r a) = messages a"
  "isLoading (update_state cur r a) = isLoading a"
  "lastMetadata (update_state cur r a) = lastMetadata a"
  by (simp_all add: update_state_def split: option.splits)

lemma addMistake_cases:
  "addMistake out db e = (if out = DbOk then Inr (db\<lparr>mistakes := mistakes db @ [e]\<rparr>)
     else Inl (case out of DbOpenError code \<Rightarrow> Native (lit ''Database error: '' @ code)
        | _ \<Rightarrow> Native (lit ''Failed to add mistake'')))"
  by (cases out) (simp_all add: addMistake_def)

lemma saveChatHistory_cases:
  "saveChatHistory out db u ms = (if out = DbOk then Inr (db\<lparr>chats := (chats db)(u \<mapsto> ms)\<rparr>)
     else Inl (case out of DbOpenError code \<Rightarrow> Native (lit ''Database error: '' @ code)
        | _ \<Rightarrow> Native (lit ''Failed to save chat'')))"
  by (cases out) (simp_all add: saveChatHistory_def)

lemma handleSend_messages:
  assumes "trim (input a) \<noteq> []" "\<not> isLoading a"
  shows "messages (fst (handleSend ev a db)) =
     messages a @ [userMsg_of ev a]
     @ (if fst (gateway_call ev a) = JNull
           \<or> (mistake_trigger a (fst (gateway_call ev a)) \<and> add_outcome ev \<noteq> DbOk)
        then [errorMsg_of ev]
        else botMsg_of ev (currentState a) (fst (gateway_call ev a))
             # (if save_outcome ev = DbOk then [] else [errorMsg_of ev]))"
  using assms
  by (simp add: handleSend_unfold respond_cases addMistake_cases saveChatHistory_cases)

lemma handleSend_calls:
  assumes "trim (input a) \<noteq> []" "\<not> isLoading a"
  shows "filter is_AddMistake (fst (snd (snd (handleSend ev a db)))) =
     (if mistake_trigger a (fst (gateway_call ev a))
      then [AddMistake (mistake_of ev a (fst (gateway_call ev a)))] else [])"
  using assms
  by (simp add: handleSend_unfold respond_cases addMistake_cases saveChatHistory_cases
      mistake_trigger_def)

lemma handleSend_currentState:
  assumes "trim (input a) \<noteq> []" "\<not> isLoading a"
  shows "currentState (fst (handleSend ev a db)) =
     currentState (update_state (currentState a) (fst (gateway_call ev a)) a)"
  using assms
  by (simp add: handleSend_unfold respond_cases addMistake_cases saveChatHistory_cases
      update_state_def split: option.splits)

lemma handleSend_db:
  assumes "trim (input a) \<noteq> []" "\<not> isLoading a"
    and "mistake_trigger a (fst (gateway_call ev a))" "add_outcome ev = DbOk"
  shows "mistakes (fst (snd (handleSend ev a db)))
     = mistakes db @ [mistake_of ev a (fst (gateway_call ev a))]"
proof -
  have "fst (gateway_call ev a) \<noteq> JNull"
    using assms(3) by (auto simp: mistake_trigger_def)
  with assms show ?thesis
    by (simp add: handleSend_unfold respond_cases addMistake_cases saveChatHistory_cases)
qed

section \<open>Claims about the dialogue controller\<close>

text \<open>
  Claim C1. Take a turn that is processed (the input is not blank and no request is in
  flight), whose response has a truthy \<open>is_direct_answer_attempt\<close>, and whose mistake
  write, if the turn makes one, is accepted. The exchange appends the learner's turn and
  then an assistant turn that carries the full response of the gateway as metadata, and
  that displays the fixed redirect text if the state at request time was \<open>GUIDING\<close>,
  and \<open>content_for_user\<close> unchanged in any other state. Nothing appended after it
  carries a response.
\<close>

theorem C1_guardrail:
  assumes "trim (input a) \<noteq> []" "\<not> isLoading a"
    and "truthy (get_prop (fst (gateway_call ev a)) (lit ''is_direct_answer_attempt''))"
    and "mistake_trigger a (fst (gateway_call ev a)) \<longrightarrow> add_outcome ev = DbOk"
  shows "\<exists>b rest.
           drop (length (messages a)) (messages (fst (handleSend ev a db)))
             = userMsg_of ev a # b # rest
           \<and> role b = Assistant
           \<and> metadata b = Some (fst (gateway_call ev a))
           \<and> content b =
               (if currentState a = state_val GUIDING then Some (JStr REDIRECT_TEXT)
                else get_prop (fst (gateway_call ev a)) (lit ''content_for_user''))
           \<and> (\<forall>c\<in>set rest. metadata c = None)"
proof -
  have ne: "fst (gateway_call ev a) \<noteq> JNull"
    using assms(3) by auto
  have guiding: "strict_eq (currentState a) (JStr (lit ''GUIDING'')) \<longleftrightarrow> currentState a = state_val GUIDING"
    by (cases "currentState a") (auto simp: state_val_def)
  let ?b = "botMsg_of ev (currentState a) (fst (gateway_call ev a))"
  let ?rest = "if save_outcome ev = DbOk then [] else [errorMsg_of ev]"
  have "drop (length (messages a)) (messages (fst (handleSend ev a db)))
      = userMsg_of ev a # ?b # ?rest"
    using assms ne by (auto simp add: handleSend_messages)
  moreover have "role ?b = Assistant" "metadata ?b = Some (fst (gateway_call ev a))"
    "content ?b = (if currentState a = state_val GUIDING then Some (JStr REDIRECT_TEXT)
        else get_prop (fst (gateway_call ev a)) (lit ''content_for_user''))"
    using assms(3) by (simp_all add: botMsg_of_def displayContent_def guiding)
  moreover have "\<forall>c\<in>set ?rest. metadata c = None"
    by (simp add: errorMsg_of_def)
  ultimately show ?thesis by blast
qed

theorem C1_guardrail_witness:
  "\<exists>b rest. messages (fst (handleSend (demo_env demo_ok DbOk DbOk) demo_App empty_db))
        = userMsg_of (demo_env demo_ok DbOk DbOk) demo_App # b # rest
      \<and> role b = Assistant
      \<and> metadata b = Some demo_response
      \<and> content b = Some (JStr REDIRECT_TEXT)
      \<and> get_prop demo_response (lit ''content_for_user'') = Some (JStr (lit ''It is 5/6.''))"
proof -
  have st: "currentState demo_App = state_val GUIDING" "add_outcome (demo_env demo_ok DbOk DbOk) = DbOk"
    "messages demo_App = []"
    by (simp_all add: demo_App_def initial_App_def demo_env_def)
  from C1_guardrail [of demo_App "demo_env demo_ok DbOk DbOk" empty_db] demo_proceeds st
  obtain b rest
    where "messages (fst (handleSend (demo_env demo_ok DbOk DbOk) demo_App empty_db))
        = userMsg_of (demo_env demo_ok DbOk DbOk) demo_App # b # rest"
      "role b = Assistant" "metadata b = Some demo_response" "content b = Some (JStr REDIRECT_TEXT)"
    by (auto simp: demo_gateway demo_props)
  then show ?thesis
    by (intro exI [of _ b] exI [of _ rest]) (simp add: demo_props)
qed

text \<open>
  Without that proviso the claim fails. In mode \<open>MISTAKE_ANALYSIS\<close>, state
  \<open>GUIDING\<close>, the response of the example turn is flagged and fires the mistake
  trigger; when the write is rejected the exchange appends the learner's turn and the
  turn of the \<open>catch\<close> block only: no redirect text is shown and no response is
  attached.
\<close>

theorem C1_rejected_write_shows_no_redirect:
  "truthy (get_prop (fst (gateway_call (demo_env demo_ok DbRequestError DbOk) demo_App))
      (lit ''is_direct_answer_attempt''))
   \<and> currentState demo_App = state_val GUIDING
   \<and> messages (fst (handleSend (demo_env demo_ok DbRequestError DbOk) demo_App empty_db))
       = [userMsg_of (demo_env demo_ok DbRequestError DbOk) demo_App,
          errorMsg_of (demo_env demo_ok DbRequestError DbOk)]
   \<and> role (userMsg_of (demo_env demo_ok DbRequestError DbOk) demo_App) = User
   \<and> role (errorMsg_of (demo_env demo_ok DbRequestError DbOk)) = Assistant
   \<and> content (errorMsg_of (demo_env demo_ok DbRequestError DbOk))
       = Some (JStr (lit ''System Error: Could not process logic.''))
   \<and> metadata (errorMsg_of (demo_env demo_ok DbRequestError DbOk)) = None"
proof -
  have st: "currentState demo_App = state_val GUIDING" "messages demo_App = []"
    "app_mode demo_App = MISTAKE_ANALYSIS"
    "add_outcome (demo_env demo_ok DbRequestError DbOk) = DbRequestError"
    by (simp_all add: demo_App_def initial_App_def demo_env_def)
  have trig: "mistake_trigger demo_App demo_response"
    by (simp add: mistake_trigger_def st demo_props)
  have "messages (fst (handleSend (demo_env demo_ok DbRequestError DbOk) demo_App empty_db))
       = [userMsg_of (demo_env demo_ok DbRequestError DbOk) demo_App,
          errorMsg_of (demo_env demo_ok DbRequestError DbOk)]"
    using handleSend_messages [OF demo_proceeds, of "demo_env demo_ok DbRequestError DbOk" empty_db]
    by (simp add: demo_gateway trig st)
  then show ?thesis
    by (simp add: demo_gateway demo_props st userMsg_of_def errorMsg_of_def)
qed

text \<open>
  Claim C2. The controller starts in \<open>GUIDING\<close>. In a processed turn, a response whose
  \<open>suggested_next_state\<close> is present (truthy) becomes the current state, whatever
  the value and whatever the state before: nothing validates the transition. From
  \<open>GUIDING\<close>, a suggestion of \<open>EXPLAINING\<close> leaves the controller in \<open>EXPLAINING\<close>.
\<close>

theorem C2_state_transition:
  "currentState initial_App = state_val GUIDING
   \<and> (trim (input a) \<noteq> [] \<longrightarrow> \<not> isLoading a \<longrightarrow>
        get_prop (fst (gateway_call ev a)) (lit ''suggested_next_state'') = Some sug \<longrightarrow>
        truthy (Some sug) \<longrightarrow>
        currentState (fst (handleSend ev a db)) = sug)"
proof (intro conjI impI)
  show "currentState initial_App = state_val GUIDING"
    by (simp add: initial_App_def)
next
  assume a: "trim (input a) \<noteq> []" "\<not> isLoading a"
    and sug: "get_prop (fst (gateway_call ev a)) (lit ''suggested_next_state'') = Some sug"
      "truthy (Some sug)"
  show "currentState (fst (handleSend ev a db)) = sug"
  proof (cases "strict_eq sug (currentState a)")
    case True
    then have "sug = currentState a" by (rule strict_eq_imp_eq)
    with a sug True show ?thesis
      by (simp add: handleSend_currentState update_state_def)
  next
    case False
    with a sug show ?thesis
      by (simp add: handleSend_currentState update_state_def)
  qed
qed

theorem C2_state_transition_witness:
  "currentState initial_App = state_val GUIDING
   \<and> currentState demo_App = state_val GUIDING
   \<and> currentState (fst (handleSend (demo_env demo_ok DbOk DbOk) demo_App empty_db))
       = state_val EXPLAINING"
proof -
  have "currentState (fst (handleSend (demo_env demo_ok DbOk DbOk) demo_App empty_db))
      = JStr (lit ''EXPLAINING'')"
    using C2_state_transition [of demo_App "demo_env demo_ok DbOk DbOk" "JStr (lit ''EXPLAINING'')" empty_db]
      demo_proceeds
    by (simp add: demo_gateway demo_props)
  then show ?thesis
    by (simp add: demo_App_def initial_App_def state_val_def)
qed

text \<open>
  Claim C9. In a processed turn \<open>addMistake\<close> is called once if the task mode is
  \<open>MISTAKE_ANALYSIS\<close> and the response has a non-empty (truthy)
  \<open>knowledge_point_id\<close> and \<open>internal_monologue\<close>, with the learner's identity, the
  subject, the first 100 code units of the question, the monologue as analysis and the
  knowledge point; in every other case it is not called.
\<close>

theorem C9_mistake_trigger:
  assumes "trim (input a) \<noteq> []" "\<not> isLoading a"
  shows "filter is_AddMistake (fst (snd (snd (handleSend ev a db)))) =
     (if app_mode a = MISTAKE_ANALYSIS
         \<and> truthy (get_prop (fst (gateway_call ev a)) (lit ''knowledge_point_id''))
         \<and> truthy (get_prop (fst (gateway_call ev a)) (lit ''internal_monologue''))
      then [AddMistake
              \<lparr>userEmail = email (app_student a),
               mr_subject = app_subject a,
               question = take 100 (input a),
               analysis = get_prop (fst (gateway_call ev a)) (lit ''internal_monologue''),
               knowledgePoint = get_prop (fst (gateway_call ev a)) (lit ''knowledge_point_id''),
               mr_timestamp = now_mistake ev\<rparr>]
      else [])"
  using assms by (simp add: handleSend_calls mistake_trigger_def mistake_of_def)

theorem C9_mistake_trigger_witness:
  "filter is_AddMistake (fst (snd (snd (handleSend (demo_env demo_ok DbOk DbOk) demo_App empty_db))))
     = [AddMistake
          \<lparr>userEmail = lit ''guest@edumind.ai'', mr_subject = MATH,
           question = lit ''What is 1/2 + 1/3? Just tell me.'',
           analysis = Some (JStr (lit ''Asked for the answer.'')),
           knowledgePoint = Some (JStr (lit ''MATH_05_FRACTIONS'')),
           mr_timestamp = 1700000000900\<rparr>]
   \<and> filter is_AddMistake (fst (snd (snd (handleSend (demo_env demo_ok DbOk DbOk)
          (demo_App\<lparr>app_mode := HOMEWORK_HELP\<rparr>) empty_db)))) = []"
proof -
  have g: "fst (gateway_call (demo_env demo_ok DbOk DbOk) (demo_App\<lparr>app_mode := HOMEWORK_HELP\<rparr>))
      = demo_response"
    using demo_gateway [of DbOk DbOk]
    by (simp add: gateway_call_def sendMessageToLocalLLM_def demo_env_def demo_engine_def)
  have fields: "app_mode demo_App = MISTAKE_ANALYSIS" "email (app_student demo_App) = lit ''guest@edumind.ai''"
    "app_subject demo_App = MATH" "take 100 (input demo_App) = lit ''What is 1/2 + 1/3? Just tell me.''"
    "now_mistake (demo_env demo_ok DbOk DbOk) = 1700000000900"
    by (simp_all add: demo_App_def initial_App_def demo_env_def lit_def)
  show ?thesis
    using C9_mistake_trigger [of demo_App "demo_env demo_ok DbOk DbOk" empty_db]
      C9_mistake_trigger [of "demo_App\<lparr>app_mode := HOMEWORK_HELP\<rparr>" "demo_env demo_ok DbOk DbOk" empty_db]
      demo_proceeds
    by (simp add: demo_gateway g demo_props fields)
qed

section \<open>Claims about the inference gateway\<close>

lemma parse_local_not_string:
  "\<forall>s. rc \<noteq> Some (JStr s) \<Longrightarrow> parseStructuredResponse_local rc = Inl PARSE_FAILURE"
proof (cases rc)
  case None
  then show ?thesis by (simp add: parseStructuredResponse_local_def)
next
  case (Some j)
  assume "\<forall>s. rc \<noteq> Some (JStr s)"
  with Some show ?thesis
    by (cases j) (simp_all add: parseStructuredResponse_local_def)
qed

text \<open>
  A failure of the outer \<open>try\<close> is answered with the fallback record, which prints the
  thrown value after the endpoint.
\<close>

lemma sendMessageToLocalLLM_fails:
  assumes "local_try en (fetch en endpoint (request_of model systemPrompt history userMessage)) = Inl err"
  shows "fst (sendMessageToLocalLLM en endpoint model systemPrompt history userMessage) =
       JObj [(lit ''content_for_user'', JStr CONNECTION_ERROR_TEXT),
             (lit ''internal_monologue'',
                JStr (lit ''Connection failed to '' @ endpoint @ lit ''. Error: '' @ error_string err)),
             (lit ''knowledge_point_id'', JStr (lit ''ERR_CONN'')),
             (lit ''student_mastery_score'', JNum 0 0),
             (lit ''suggested_next_state'', JStr (lit ''GUIDING'')),
             (lit ''is_direct_answer_attempt'', JBool False)]"
  using assms by (simp add: sendMessageToLocalLLM_def Let_def fallback_def)

lemma demo_not_json_body:
  "JSON_parse (completion_body (lit ''not json'')) =
     Some (JObj [(lit ''choices'', JArr [JObj [(lit ''message'',
       JObj [(lit ''role'', JStr (lit ''assistant'')),
             (lit ''content'', JStr (lit ''not json''))])]])])"
  by (simp add: completion_body_def json_eval escape_unit_def
     is_high_surrogate_def is_low_surrogate_def)

lemma demo_not_json_text: "JSON_parse (trim (strip_fences (lit ''not json''))) = None"
proof -
  have "strip_fences (lit ''not json'') = lit ''not json''"
    by (rule strip_fences_no_backtick) (simp add: lit_def)
  moreover have "trim (lit ''not json'') = lit ''not json''"
    by (rule trim_id) (simp_all add: lit_def is_js_ws_def js_ws_units_def)
  moreover have "JSON_parse (lit ''not json'') = None"
    by (simp add: json_eval)
  ultimately show ?thesis by simp
qed

text \<open>
  Claim C3. \<open>sendMessageToLocalLLM\<close> is a total function: it returns a record and throws
  nothing. It returns the fallback record (\<open>ERR_CONN\<close>, score 0, next state
  \<open>GUIDING\<close>, no direct-answer flag, a non-empty text for the learner, a monologue that
  names the endpoint and carries the diagnostic) in each of these cases, with the
  diagnostic named beside it: the call is rejected (the rejection itself); the status is
  outside 200..299 (the status and its text); the body is not a JSON text (the syntax
  error of the platform); the body is \<open>null\<close> (the type error of the platform); the
  model output is missing or empty (\<open>Empty response from local model\<close>); the model
  output is not a string, or is a string that, with the fence markers removed and
  trimmed, is not a JSON text (\<open>Failed to parse structured output from Local LLM\<close>).
\<close>

theorem C3_gateway_fallback:
  assumes "res = fetch en endpoint (request_of model systemPrompt history userMessage)"
    and "res = Rejected diagnostic
     \<or> (\<exists>st tx body. res = Responded st tx body \<and> \<not> (200 \<le> st \<and> st \<le> 299)
           \<and> diagnostic = lit ''Error: Local API Error: '' @ Number_toString st @ lit '' '' @ tx)
     \<or> (\<exists>st tx body. res = Responded st tx body \<and> 200 \<le> st \<and> st \<le> 299
           \<and> JSON_parse body = None \<and> diagnostic = syntax_error_text en body)
     \<or> (\<exists>st tx body. res = Responded st tx body \<and> 200 \<le> st \<and> st \<le> 299
           \<and> JSON_parse body = Some JNull \<and> diagnostic = type_error_text en (lit ''choices''))
     \<or> (\<exists>st tx body data rc. res = Responded st tx body \<and> 200 \<le> st \<and> st \<le> 299
           \<and> JSON_parse body = Some data \<and> rawContent_of en data = Inr rc \<and> \<not> truthy rc
           \<and> diagnostic = lit ''Error: Empty response from local model'')
     \<or> (\<exists>st tx body data rc. res = Responded st tx body \<and> 200 \<le> st \<and> st \<le> 299
           \<and> JSON_parse body = Some data \<and> rawContent_of en data = Inr rc \<and> truthy rc
           \<and> (\<forall>s. rc \<noteq> Some (JStr s))
           \<and> diagnostic = lit ''Error: Failed to parse structured output from Local LLM'')
     \<or> (\<exists>st tx body data s. res = Responded st tx body \<and> 200 \<le> st \<and> st \<le> 299
           \<and> JSON_parse body = Some data \<and> rawContent_of en data = Inr (Some (JStr s)) \<and> s \<noteq> []
           \<and> JSON_parse (trim (strip_fences s)) = None
           \<and> diagnostic = lit ''Error: Failed to parse structured output from Local LLM'')"
  shows "fst (sendMessageToLocalLLM en endpoint model systemPrompt history userMessage) =
       JObj [(lit ''content_for_user'', JStr CONNECTION_ERROR_TEXT),
             (lit ''internal_monologue'',
                JStr (lit ''Connection failed to '' @ endpoint @ lit ''. Error: '' @ diagnostic)),
             (lit ''knowledge_point_id'', JStr (lit ''ERR_CONN'')),
             (lit ''student_mastery_score'', JNum 0 0),
             (lit ''suggested_next_state'', JStr (lit ''GUIDING'')),
             (lit ''is_direct_answer_attempt'', JBool False)]
     \<and> CONNECTION_ERROR_TEXT \<noteq> []"
proof -
  have "\<exists>err. local_try en res = Inl err \<and> error_string err = diagnostic"
    using assms(2)
  proof (elim disjE exE conjE)
    assume "res = Rejected diagnostic"
    then show ?thesis by (simp add: local_try_def error_string_def lit_def)
  next
    fix st tx body
    assume "res = Responded st tx body" "\<not> (200 \<le> st \<and> st \<le> 299)"
      "diagnostic = lit ''Error: Local API Error: '' @ Number_toString st @ lit '' '' @ tx"
    then show ?thesis by (simp add: local_try_def error_string_def lit_def)
  next
    fix st tx body
    assume "res = Responded st tx body" "200 \<le> st" "st \<le> 299" "JSON_parse body = None"
      "diagnostic = syntax_error_text en body"
    then show ?thesis by (simp add: local_try_def error_string_def lit_def)
  next
    fix st tx body
    assume "res = Responded st tx body" "200 \<le> st" "st \<le> 299" "JSON_parse body = Some JNull"
      "diagnostic = type_error_text en (lit ''choices'')"
    then show ?thesis by (simp add: local_try_def error_string_def rawContent_of_def)
  next
    fix st tx body data rc
    assume "res = Responded st tx body" "200 \<le> st" "st \<le> 299" "JSON_parse body = Some data"
      "rawContent_of en data = Inr rc" "\<not> truthy rc"
      "diagnostic = lit ''Error: Empty response from local model''"
    then show ?thesis by (simp add: local_try_def error_string_def lit_def)
  next
    fix st tx body data rc
    assume "res = Responded st tx body" "200 \<le> st" "st \<le> 299" "JSON_parse body = Some data"
      "rawContent_of en data = Inr rc" "truthy rc" "\<forall>s. rc \<noteq> Some (JStr s)"
      "diagnostic = lit ''Error: Failed to parse structured output from Local LLM''"
    then show ?thesis
      by (simp add: local_try_def error_string_def parse_local_not_string PARSE_FAILURE_def lit_def)
  next
    fix st tx body data s
    assume "res = Responded st tx body" "200 \<le> st" "st \<le> 299" "JSON_parse body = Some data"
      "rawContent_of en data = Inr (Some (JStr s))" "s \<noteq> []"
      "JSON_parse (trim (strip_fences s)) = None"
      "diagnostic = lit ''Error: Failed to parse structured output from Local LLM''"
    then show ?thesis
      by (simp add: local_try_def error_string_def parseStructuredResponse_local_def
          PARSE_FAILURE_def lit_def)
  qed
  then obtain err where "local_try en res = Inl err" "error_string err = diagnostic"
    by blast
  with sendMessageToLocalLLM_fails [of en endpoint model systemPrompt history userMessage err]
  show ?thesis
    unfolding assms(1) by (simp add: CONNECTION_ERROR_TEXT_def)
qed

theorem C3_gateway_fallback_witness:
  "fst (sendMessageToLocalLLM (demo_engine demo_down) (lit ''http://localhost:8000/v1/chat/completions'')
         (lit ''edu-32b-finetuned'') (lit ''prompt'') [] (lit ''hello'')) =
     JObj [(lit ''content_for_user'', JStr CONNECTION_ERROR_TEXT),
           (lit ''internal_monologue'',
              JStr (lit ''Connection failed to http://localhost:8000/v1/chat/completions. Error: TypeError: Failed to fetch'')),
           (lit ''knowledge_point_id'', JStr (lit ''ERR_CONN'')),
           (lit ''student_mastery_score'', JNum 0 0),
           (lit ''suggested_next_state'', JStr (lit ''GUIDING'')),
           (lit ''is_direct_answer_attempt'', JBool False)]
   \<and> get_prop (fst (sendMessageToLocalLLM (demo_engine demo_error_status) (lit ''http://localhost:8000/v1/chat/completions'')
         (lit ''edu-32b-finetuned'') (lit ''prompt'') [] (lit ''hello''))) (lit ''internal_monologue'')
       = Some (JStr (lit ''Connection failed to http://localhost:8000/v1/chat/completions. Error: Error: Local API Error: 500 Internal Server Error''))
   \<and> get_prop (fst (sendMessageToLocalLLM (demo_engine demo_empty_body) (lit ''http://localhost:8000/v1/chat/completions'')
         (lit ''edu-32b-finetuned'') (lit ''prompt'') [] (lit ''hello''))) (lit ''internal_monologue'')
       = Some (JStr (lit ''Connection failed to http://localhost:8000/v1/chat/completions. Error: SyntaxError: Unexpected end of JSON input''))
   \<and> get_prop (fst (sendMessageToLocalLLM (demo_engine demo_no_choice) (lit ''http://localhost:8000/v1/chat/completions'')
         (lit ''edu-32b-finetuned'') (lit ''prompt'') [] (lit ''hello''))) (lit ''internal_monologue'')
       = Some (JStr (lit ''Connection failed to http://localhost:8000/v1/chat/completions. Error: Error: Empty response from local model''))
   \<and> get_prop (fst (sendMessageToLocalLLM (demo_engine demo_not_json) (lit ''http://localhost:8000/v1/chat/completions'')
         (lit ''edu-32b-finetuned'') (lit ''prompt'') [] (lit ''hello''))) (lit ''internal_monologue'')
       = Some (JStr (lit ''Connection failed to http://localhost:8000/v1/chat/completions. Error: Error: Failed to parse structured output from Local LLM''))
   \<and> get_prop (fst (sendMessageToLocalLLM (demo_engine demo_not_json) (lit ''http://localhost:8000/v1/chat/completions'')
         (lit ''edu-32b-finetuned'') (lit ''prompt'') [] (lit ''hello''))) (lit ''knowledge_point_id'')
       = Some (JStr (lit ''ERR_CONN''))"
proof -
  let ?E = "lit ''http://localhost:8000/v1/chat/completions''"
  let ?req = "request_of (lit ''edu-32b-finetuned'') (lit ''prompt'') [] (lit ''hello'')"
  have f: "res = fetch (demo_engine res) ?E ?req" for res
    by (simp add: demo_engine_def)
  have s500: "Number_toString 500 = lit ''500''"
    by code_simp
  have nochoice: \<open>JSON_parse (lit ''{"choices":[]}'') = Some (JObj [(lit ''choices'', JArr [])])\<close>
    by (simp add: json_eval)
  have rc0: "rawContent_of en (JObj [(lit ''choices'', JArr [])]) = Inr None" for en
    by (simp add: rawContent_of_def opt_chain_def get_prop_def get_index0_def)
  have rc1: "rawContent_of en (JObj [(lit ''choices'', JArr [JObj [(lit ''message'',
       JObj [(lit ''role'', JStr (lit ''assistant'')),
             (lit ''content'', JStr (lit ''not json''))])]])]) = Inr (Some (JStr (lit ''not json'')))" for en
    by (simp add: rawContent_of_def opt_chain_def get_prop_def get_index0_def)
  have a: "fst (sendMessageToLocalLLM (demo_engine demo_down) ?E (lit ''edu-32b-finetuned'')
              (lit ''prompt'') [] (lit ''hello'')) =
       JObj [(lit ''content_for_user'', JStr CONNECTION_ERROR_TEXT),
             (lit ''internal_monologue'',
                JStr (lit ''Connection failed to '' @ ?E @ lit ''. Error: '' @ lit ''TypeError: Failed to fetch'')),
             (lit ''knowledge_point_id'', JStr (lit ''ERR_CONN'')),
             (lit ''student_mastery_score'', JNum 0 0),
             (lit ''suggested_next_state'', JStr (lit ''GUIDING'')),
             (lit ''is_direct_answer_attempt'', JBool False)]"
    using C3_gateway_fallback [OF f [of demo_down], of "lit ''TypeError: Failed to fetch''"]
    by (simp add: demo_down_def)
  have b: "get_prop (fst (sendMessageToLocalLLM (demo_engine demo_error_status) ?E (lit ''edu-32b-finetuned'')
              (lit ''prompt'') [] (lit ''hello''))) (lit ''internal_monologue'')
       = Some (JStr (lit ''Connection failed to '' @ ?E @ lit ''. Error: ''
            @ lit ''Error: Local API Error: '' @ lit ''500'' @ lit '' '' @ lit ''Internal Server Error''))"
    using C3_gateway_fallback [OF f [of demo_error_status],
        of "lit ''Error: Local API Error: '' @ lit ''500'' @ lit '' '' @ lit ''Internal Server Error''"]
    by (simp add: demo_error_status_def s500 get_prop_def)
  have c: "get_prop (fst (sendMessageToLocalLLM (demo_engine demo_empty_body) ?E (lit ''edu-32b-finetuned'')
              (lit ''prompt'') [] (lit ''hello''))) (lit ''internal_monologue'')
       = Some (JStr (lit ''Connection failed to '' @ ?E @ lit ''. Error: ''
            @ lit ''SyntaxError: Unexpected end of JSON input''))"
    using C3_gateway_fallback [OF f [of demo_empty_body],
        of "lit ''SyntaxError: Unexpected end of JSON input''"]
    by (simp add: demo_empty_body_def demo_engine_def JSON_parse_def get_prop_def)
  have d: "get_prop (fst (sendMessageToLocalLLM (demo_engine demo_no_choice) ?E (lit ''edu-32b-finetuned'')
              (lit ''prompt'') [] (lit ''hello''))) (lit ''internal_monologue'')
       = Some (JStr (lit ''Connection failed to '' @ ?E @ lit ''. Error: ''
            @ lit ''Error: Empty response from local model''))"
    using C3_gateway_fallback [OF f [of demo_no_choice],
        of "lit ''Error: Empty response from local model''"]
    by (simp add: demo_no_choice_def nochoice rc0 get_prop_def)
  have e: "get_prop (fst (sendMessageToLocalLLM (demo_engine demo_not_json) ?E (lit ''edu-32b-finetuned'')
              (lit ''prompt'') [] (lit ''hello''))) (lit ''internal_monologue'')
       = Some (JStr (lit ''Connection failed to '' @ ?E @ lit ''. Error: ''
            @ lit ''Error: Failed to parse structured output from Local LLM''))"
    "get_prop (fst (sendMessageToLocalLLM (demo_engine demo_not_json) ?E (lit ''edu-32b-finetuned'')
              (lit ''prompt'') [] (lit ''hello''))) (lit ''knowledge_point_id'')
       = Some (JStr (lit ''ERR_CONN''))"
    using C3_gateway_fallback [OF f [of demo_not_json],
        of "lit ''Error: Failed to parse structured output from Local LLM''"]
      demo_not_json_text
    by (simp_all add: demo_not_json_def demo_not_json_body rc1 get_prop_def)
  from a b c d e show ?thesis
    by (simp add: lit_def)
qed

text \<open>
  Claim C8. Every invocation makes one network call, whose message sequence is: the
  system entry with the instruction text, and no other system entry; then one entry for
  each prior turn, in order, where an assistant turn that carries a response is sent as
  the JSON text of the whole response, not as its displayed text; then the new user
  message.
\<close>

theorem C8_outbound_messages:
  fixes en endpoint model systemPrompt history userMessage
  defines "ms \<equiv> apiMessages systemPrompt history userMessage"
  shows "snd (sendMessageToLocalLLM en endpoint model systemPrompt history userMessage)
           = [NetCall endpoint
                \<lparr>req_model = model, req_messages = ms, req_temperature = JNum 7 (- 1),
                 req_max_tokens = 2048, req_response_format = lit ''json_object''\<rparr>]
     \<and> length ms = length history + 2
     \<and> ms ! 0 = ApiMessage (lit ''system'') (Some (JStr systemPrompt))
     \<and> filter (\<lambda>m. api_role m = lit ''system'') ms = [ms ! 0]
     \<and> (\<forall>i<length history.
           api_role (ms ! Suc i)
             = (if role (history ! i) = Assistant then lit ''assistant'' else lit ''user'')
           \<and> api_content (ms ! Suc i)
             = (case metadata (history ! i) of
                  Some m \<Rightarrow>
                    if role (history ! i) = Assistant \<and> truthy (Some m)
                    then Some (JStr (JSON_stringify m)) else content (history ! i)
                | None \<Rightarrow> content (history ! i)))
     \<and> ms ! Suc (length history) = ApiMessage (lit ''user'') (Some (JStr userMessage))"
proof -
  have filt: "filter (\<lambda>m. api_role m = lit ''system'')
      (map (\<lambda>h. ApiMessage (if role h = Assistant then lit ''assistant'' else lit ''user'') (f h)) history) = []"
    for f :: "ChatMessage \<Rightarrow> jsval"
    by (induction history) auto
  show ?thesis
    unfolding ms_def
    by (auto simp: sendMessageToLocalLLM_def Let_def request_of_def apiMessages_def filt nth_append
        split: option.splits)
qed

theorem C8_outbound_messages_witness:
  "length (apiMessages (lit ''prompt'') demo_history (lit ''I think 2/5?'')) = 4
   \<and> api_role (apiMessages (lit ''prompt'') demo_history (lit ''I think 2/5?'') ! 2) = lit ''assistant''
   \<and> api_content (apiMessages (lit ''prompt'') demo_history (lit ''I think 2/5?'') ! 2)
        = Some (JStr demo_text)
   \<and> content (demo_history ! 1) = Some (JStr REDIRECT_TEXT)"
proof -
  have h: "length demo_history = 2" "role (demo_history ! 1) = Assistant"
    "metadata (demo_history ! 1) = Some demo_response"
    "content (demo_history ! 1) = Some (JStr REDIRECT_TEXT)"
    by (simp_all add: demo_history_def)
  have t: "truthy (Some demo_response)"
    by (simp add: demo_response_def)
  from C8_outbound_messages [of "demo_engine demo_ok" "lit ''url''" "lit ''m''" "lit ''prompt''"
      demo_history "lit ''I think 2/5?''"]
  have "length (apiMessages (lit ''prompt'') demo_history (lit ''I think 2/5?'')) = length demo_history + 2"
    and "\<forall>i<length demo_history.
           api_role (apiMessages (lit ''prompt'') demo_history (lit ''I think 2/5?'') ! Suc i)
             = (if role (demo_history ! i) = Assistant then lit ''assistant'' else lit ''user'')
           \<and> api_content (apiMessages (lit ''prompt'') demo_history (lit ''I think 2/5?'') ! Suc i)
             = (case metadata (demo_history ! i) of
                  Some m \<Rightarrow>
                    if role (demo_history ! i) = Assistant \<and> truthy (Some m)
                    then Some (JStr (JSON_stringify m)) else content (demo_history ! i)
                | None \<Rightarrow> content (demo_history ! i))"
    by blast+
  from this(1) this(2) [rule_format, of 1] h t show ?thesis
    by (simp add: demo_stringify numeral_2_eq_2)
qed

text \<open>
  Claim C10. When the inference call of a processed turn fails in mode
  \<open>MISTAKE_ANALYSIS\<close>, the mistake trigger fires on the fallback record: one
  \<open>addMistake\<close> call is made, with the connection diagnostic as analysis and
  \<open>ERR_CONN\<close> as knowledge point, and the record is in the mistake store when the
  write is accepted.
\<close>

theorem C10_failed_inference_is_archived:
  assumes "trim (input a) \<noteq> []" "\<not> isLoading a" "app_mode a = MISTAKE_ANALYSIS"
    and "local_try (platform ev)
           (fetch (platform ev) (apiUrl a)
              (request_of (modelName a)
                 (constructSystemPrompt (app_subject a) (app_student a) (app_mode a) (currentState a))
                 (messages a) (input a))) = Inl err"
  shows "filter is_AddMistake (fst (snd (snd (handleSend ev a db)))) =
           [AddMistake
              \<lparr>userEmail = email (app_student a), mr_subject = app_subject a,
               question = take 100 (input a),
               analysis = Some (JStr (lit ''Connection failed to '' @ apiUrl a @ lit ''. Error: ''
                                      @ error_string err)),
               knowledgePoint = Some (JStr (lit ''ERR_CONN'')),
               mr_timestamp = now_mistake ev\<rparr>]
         \<and> (add_outcome ev = DbOk \<longrightarrow>
              mistakes (fst (snd (handleSend ev a db))) =
                mistakes db @
                [\<lparr>userEmail = email (app_student a), mr_subject = app_subject a,
                  question = take 100 (input a),
                  analysis = Some (JStr (lit ''Connection failed to '' @ apiUrl a @ lit ''. Error: ''
                                         @ error_string err)),
                  knowledgePoint = Some (JStr (lit ''ERR_CONN'')),
                  mr_timestamp = now_mistake ev\<rparr>])"
proof -
  have g: "fst (gateway_call ev a) = fallback (apiUrl a) err"
    using assms(4) by (simp add: gateway_call_def sendMessageToLocalLLM_def Let_def)
  have p: "get_prop (fallback (apiUrl a) err) (lit ''knowledge_point_id'') = Some (JStr (lit ''ERR_CONN''))"
    "get_prop (fallback (apiUrl a) err) (lit ''internal_monologue'')
       = Some (JStr (lit ''Connection failed to '' @ apiUrl a @ lit ''. Error: '' @ error_string err))"
    by (simp_all add: fallback_def get_prop_def)
  have trig: "mistake_trigger a (fst (gateway_call ev a))"
    using assms(3) by (simp add: mistake_trigger_def g p)
  have entry: "mistake_of ev a (fst (gateway_call ev a)) =
      \<lparr>userEmail = email (app_student a), mr_subject = app_subject a,
       question = take 100 (input a),
       analysis = Some (JStr (lit ''Connection failed to '' @ apiUrl a @ lit ''. Error: ''
                              @ error_string err)),
       knowledgePoint = Some (JStr (lit ''ERR_CONN'')),
       mr_timestamp = now_mistake ev\<rparr>"
    by (simp add: mistake_of_def g p)
  show ?thesis
    using assms(1,2) trig handleSend_calls [of a ev db] handleSend_db [of a ev db]
    by (simp add: entry)
qed

theorem C10_failed_inference_is_archived_witness:
  "mistakes (fst (snd (handleSend (demo_env demo_down DbOk DbOk) demo_App empty_db))) =
     [\<lparr>userEmail = lit ''guest@edumind.ai'', mr_subject = MATH,
       question = lit ''What is 1/2 + 1/3? Just tell me.'',
       analysis = Some (JStr (lit ''Connection failed to http://localhost:8000/v1/chat/completions. Error: TypeError: Failed to fetch'')),
       knowledgePoint = Some (JStr (lit ''ERR_CONN'')),
       mr_timestamp = 1700000000900\<rparr>]"
proof -
  have f: "local_try (platform (demo_env demo_down DbOk DbOk))
           (fetch (platform (demo_env demo_down DbOk DbOk)) (apiUrl demo_App)
              (request_of (modelName demo_App)
                 (constructSystemPrompt (app_subject demo_App) (app_student demo_App)
                    (app_mode demo_App) (currentState demo_App))
                 (messages demo_App) (input demo_App)))
        = Inl (Native (lit ''TypeError: Failed to fetch''))"
    by (simp add: demo_env_def demo_engine_def demo_down_def local_try_def)
  have fields: "app_mode demo_App = MISTAKE_ANALYSIS" "email (app_student demo_App) = lit ''guest@edumind.ai''"
    "app_subject demo_App = MATH" "take 100 (input demo_App) = lit ''What is 1/2 + 1/3? Just tell me.''"
    "now_mistake (demo_env demo_down DbOk DbOk) = 1700000000900"
    "add_outcome (demo_env demo_down DbOk DbOk) = DbOk"
    "apiUrl demo_App = lit ''http://localhost:8000/v1/chat/completions''"
    "mistakes empty_db = []"
    by (simp_all add: demo_App_def initial_App_def demo_env_def empty_db_def lit_def)
  from C10_failed_inference_is_archived [OF demo_proceeds fields(1) f, of empty_db]
  show ?thesis
    by (simp add: fields error_string_def) (simp add: lit_def)
qed

section \<open>Trimming does not change what a valid JSON text denotes\<close>

lemma js_ws_inert: "is_js_ws c \<Longrightarrow> inert c"
proof -
  have "list_all inert js_ws_units"
    by code_simp
  then show "is_js_ws c \<Longrightarrow> inert c"
    by (simp add: is_js_ws_def list_all_iff)
qed

lemma prefix_hd_mem: "prefix p (c # cs) \<Longrightarrow> p \<noteq> [] \<Longrightarrow> c \<in> set p"
  by (cases p) auto

lemma inert_lex_None:
  assumes "inert c" "\<not> is_json_ws c"
  shows "lex (c # cs) = None"
proof -
  have "\<not> prefix (lit ''true'') (c # cs)" "\<not> prefix (lit ''false'') (c # cs)"
    "\<not> prefix (lit ''null'') (c # cs)"
    using assms(1) prefix_hd_mem [of _ c cs] by (auto simp: inert_def)
  with assms show ?thesis
    by (simp add: inert_def)
qed

text \<open>
  White space of \<open>trim\<close> in front of a text: the lexer skips it, or rejects the text.
\<close>

lemma lex_dropWhile_ws:
  "lex s = Some ts \<Longrightarrow> lex (dropWhile is_js_ws s) = Some ts"
proof (induction s)
  case Nil
  then show ?case by simp
next
  case (Cons c cs)
  show ?case
  proof (cases "is_js_ws c")
    case False
    with Cons.prems show ?thesis by simp
  next
    case True
    show ?thesis
    proof (cases "is_json_ws c")
      case ws: True
      with Cons True show ?thesis by simp
    next
      case False
      with True have "lex (c # cs) = None"
        using inert_lex_None js_ws_inert by blast
      with Cons.prems show ?thesis by simp
    qed
  qed
qed

subsection \<open>Strings\<close>

lemma takeWhile_snoc_not: "\<not> P c \<Longrightarrow> takeWhile P (r @ [c]) = takeWhile P r"
  by (induction r) auto

lemma hex4_Some:
  "hex4 cs = Some w \<Longrightarrow> 4 \<le> length cs \<and> None \<notin> set (map hex_val (take 4 cs))"
  unfolding hex4_def
  by (cases cs; cases "tl cs"; cases "tl (tl cs)"; cases "tl (tl (tl cs))")
    (auto split: option.splits list.splits)

lemma hex4_snoc:
  assumes "hex_val c = None" "hex4 (es @ [c]) = Some w"
  shows "hex4 es = Some w \<and> 4 \<le> length es"
proof -
  from hex4_Some [OF assms(2)] have n: "None \<notin> set (map hex_val (take 4 (es @ [c])))"
    by simp
  have len: "4 \<le> length es"
  proof (rule ccontr)
    assume "\<not> 4 \<le> length es"
    then have "c \<in> set (take 4 (es @ [c]))" by simp
    with assms(1) n show False by force
  qed
  then have "take 4 (es @ [c]) = take 4 es" by simp
  with assms(2) len show ?thesis by (simp add: hex4_def)
qed

text \<open>
  A string that the lexer closes is closed before the last code unit of the text.
\<close>

lemma lex_string_snoc:
  assumes "inert c"
  shows "lex_string (s @ [c]) = Some (str, n) \<Longrightarrow> lex_string s = Some (str, n) \<and> n \<le> length s"
proof (induction s arbitrary: str n rule: lex_string.induct)
  case 1
  with assms show ?case by (auto simp: inert_def split: if_splits)
next
  case (2 x cs)
  show ?case
  proof (cases "x = 0x22")
    case True
    with "2.prems" show ?thesis by simp
  next
    case nq: False
    show ?thesis
    proof (cases "x = 0x5C")
      case bs: True
      show ?thesis
      proof (cases cs)
        case Nil
        with "2.prems" nq bs assms show ?thesis by (auto simp: inert_def split: if_splits)
      next
        case (Cons e es)
        show ?thesis
        proof (cases "e = 0x75")
          case u: True
          from "2.prems" nq bs Cons u obtain w s' n'
            where w: "hex4 (es @ [c]) = Some w"
              and r: "lex_string (drop 4 (es @ [c])) = Some (s', n')"
              and res: "str = w # s'" "n = n' + 6"
            by (auto split: option.splits)
          from hex4_snoc [OF _ w] assms have h: "hex4 es = Some w" "4 \<le> length es"
            by (auto simp: inert_def)
          with r have "lex_string (drop 4 es @ [c]) = Some (s', n')" by simp
          with "2.IH"(1) [OF nq bs Cons u h(1)]
          have "lex_string (drop 4 es) = Some (s', n') \<and> n' \<le> length (drop 4 es)" by simp
          with nq bs Cons u h res show ?thesis by auto
        next
          case nu: False
          from "2.prems" nq bs Cons nu obtain w s' n'
            where w: "unescape e = Some w"
              and r: "lex_string (es @ [c]) = Some (s', n')"
              and res: "str = w # s'" "n = n' + 2"
            by (auto split: option.splits)
          from "2.IH"(2) [OF nq bs Cons nu w r]
          have "lex_string es = Some (s', n') \<and> n' \<le> length es" .
          with nq bs Cons nu w res show ?thesis by simp
        qed
      qed
    next
      case nbs: False
      show ?thesis
      proof (cases "x < 0x20")
        case True
        with "2.prems" nq nbs show ?thesis by simp
      next
        case False
        from "2.prems" nq nbs False obtain s' n'
          where r: "lex_string (cs @ [c]) = Some (s', n')" and res: "str = x # s'" "n = n' + 1"
          by (auto split: option.splits)
        from "2.IH"(3) [OF nq nbs False r]
        have "lex_string cs = Some (s', n') \<and> n' \<le> length cs" .
        with nq nbs False res show ?thesis by simp
      qed
    qed
  qed
qed

subsection \<open>Numbers\<close>

lemma is_digit_zero: "is_digit 0x30"
  by (simp add: is_digit_def)

lemma int_part_snoc: "\<not> is_digit c \<Longrightarrow> int_part (r @ [c]) = int_part r"
  using is_digit_zero by (cases r) (auto simp: int_part_def takeWhile_snoc_not)

lemma int_part_length: "length (int_part r) \<le> length r"
  by (cases r) (auto simp: int_part_def length_takeWhile_le)

lemma frac_part_snoc:
  "\<not> is_digit c \<Longrightarrow> c \<noteq> 0x2E \<Longrightarrow> frac_part (r @ [c]) = frac_part r"
  by (cases r) (auto simp: frac_part_def takeWhile_snoc_not)

lemma frac_part_length: "frac_part r = Some (fp, nf) \<Longrightarrow> nf \<le> length r"
  by (cases r) (auto simp: frac_part_def Let_def length_takeWhile_le split: if_splits)

lemma exp_digits_snoc: "\<not> is_digit c \<Longrightarrow> exp_digits sg k (r @ [c]) = exp_digits sg k r"
  by (simp add: exp_digits_def takeWhile_snoc_not)

lemma exp_digits_length: "exp_digits sg k r = Some (ex, ne) \<Longrightarrow> ne \<le> k + length r"
  by (auto simp: exp_digits_def Let_def length_takeWhile_le split: if_splits)

lemma exp_part_snoc:
  assumes "\<not> is_digit c" "c \<noteq> 0x65" "c \<noteq> 0x45" "c \<noteq> 0x2B" "c \<noteq> 0x2D"
  shows "exp_part (r @ [c]) = exp_part r"
proof (cases r)
  case Nil
  with assms show ?thesis by (simp add: exp_part_def)
next
  case (Cons x r')
  show ?thesis
  proof (cases r')
    case Nil
    with Cons assms show ?thesis by (simp add: exp_part_def exp_digits_def)
  next
    case (Cons y r'')
    with \<open>r = x # r'\<close> assms show ?thesis
      using exp_digits_snoc [of c _ _ r''] exp_digits_snoc [of c _ _ "y # r''"]
      by (simp add: exp_part_def)
  qed
qed

lemma exp_part_length: "exp_part r = Some (ex, ne) \<Longrightarrow> ne \<le> length r"
  by (cases r; cases "tl r")
    (auto simp: exp_part_def split: if_splits dest!: exp_digits_length)

lemma lex_number_snoc:
  assumes "inert c"
  shows "lex_number (s @ [c]) = lex_number s"
proof -
  from assms have nd: "\<not> is_digit c"
    and ne: "c \<noteq> 0x2E" "c \<noteq> 0x65" "c \<noteq> 0x45" "c \<noteq> 0x2B" "c \<noteq> 0x2D"
    by (auto simp: inert_def)
  define neg where "neg \<longleftrightarrow> s \<noteq> [] \<and> hd s = 0x2D"
  define s1 where "s1 = (if neg then tl s else s)"
  define ip where "ip = int_part s1"
  have neg': "(s @ [c] \<noteq> [] \<and> hd (s @ [c]) = 0x2D) = neg"
    using ne by (cases s) (auto simp: neg_def)
  have s1': "(if neg then tl (s @ [c]) else s @ [c]) = s1 @ [c]"
    by (cases s) (auto simp: neg_def s1_def)
  have ip': "int_part (s1 @ [c]) = ip"
    unfolding ip_def by (rule int_part_snoc [OF nd])
  have d1: "drop (length ip) (s1 @ [c]) = drop (length ip) s1 @ [c]"
    using int_part_length [of s1] by (simp add: ip_def)
  have fp: "frac_part (drop (length ip) s1 @ [c]) = frac_part (drop (length ip) s1)"
    by (rule frac_part_snoc [OF nd ne(1)])
  have ex: "exp_part (drop (length ip + nf) (s1 @ [c])) = exp_part (drop (length ip + nf) s1)"
    if "frac_part (drop (length ip) s1) = Some (f, nf)" for f nf
  proof -
    from frac_part_length [OF that] int_part_length [of s1]
    have "length ip + nf \<le> length s1" by (simp add: ip_def)
    then have "drop (length ip + nf) (s1 @ [c]) = drop (length ip + nf) s1 @ [c]" by simp
    then show ?thesis using exp_part_snoc [OF nd ne(2-5)] by simp
  qed
  have "lex_number (s @ [c]) =
      (if ip = [] then None
       else (case frac_part (drop (length ip) s1) of
               None \<Rightarrow> None
             | Some (f, nf) \<Rightarrow>
                 (case exp_part (drop (length ip + nf) (s1 @ [c])) of
                    None \<Rightarrow> None
                  | Some (ex, ne) \<Rightarrow>
                      (let m = digits_val (ip @ f);
                           (m', e') = norm_dec (if neg then - m else m) (ex - int (length f))
                       in Some (m', e', (if neg then 1 else 0) + length ip + nf + ne)))))"
    unfolding lex_number_def [of "s @ [c]"] neg' s1' Let_def ip' d1 fp ..
  also have "\<dots> = lex_number s"
  proof (cases "frac_part (drop (length ip) s1)")
    case None
    then show ?thesis
      unfolding lex_number_def [of s] Let_def neg_def [symmetric] s1_def [symmetric]
        ip_def [symmetric]
      by simp
  next
    case (Some a)
    obtain f nf where a: "a = (f, nf)" by (cases a)
    from Some a have "frac_part (drop (length ip) s1) = Some (f, nf)" by simp
    note ex [OF this] this
    then show ?thesis
      unfolding lex_number_def [of s] Let_def neg_def [symmetric] s1_def [symmetric]
        ip_def [symmetric]
      by (simp del: drop_append)
  qed
  finally show ?thesis .
qed

lemma lex_number_length:
  assumes "lex_number s = Some (m, e, n)"
  shows "n \<le> length s"
proof -
  define neg where "neg \<longleftrightarrow> s \<noteq> [] \<and> hd s = 0x2D"
  define s1 where "s1 = (if neg then tl s else s)"
  define ip where "ip = int_part s1"
  from assms obtain f nf x ne
    where f: "frac_part (drop (length ip) s1) = Some (f, nf)"
      and x: "exp_part (drop (length ip + nf) s1) = Some (x, ne)"
      and n: "n = (if neg then 1 else 0) + length ip + nf + ne"
    unfolding lex_number_def Let_def neg_def [symmetric] s1_def [symmetric] ip_def [symmetric]
    by (auto split: option.splits if_splits prod.splits)
  from int_part_length [of s1] have a: "length ip \<le> length s1" by (simp add: ip_def)
  from frac_part_length [OF f] have b: "nf \<le> length s1 - length ip" by simp
  from exp_part_length [OF x] have c: "ne \<le> length s1 - (length ip + nf)" by simp
  have d: "(if neg then 1 else 0) + length s1 = length s"
    by (cases s) (auto simp: neg_def s1_def)
  from a b c d n show ?thesis by (simp split: if_splits)
qed

subsection \<open>The lexer\<close>

lemma prefix_snoc_notin: "c \<notin> set p \<Longrightarrow> prefix p (s @ [c]) = prefix p s"
  by auto

lemma lex_snoc:
  assumes "inert c"
  shows "lex (s @ [c]) = Some ts \<Longrightarrow> lex s = Some ts"
proof (induction "length s" arbitrary: s ts rule: less_induct)
  case less
  show ?case
  proof (cases s)
    case Nil
    with less.prems assms show ?thesis
      using inert_lex_None [of c "[]"] by (cases "is_json_ws c") auto
  next
    case (Cons c0 cs)
    have IH: "lex r = Some us" if "length r \<le> length cs" "lex (r @ [c]) = Some us" for r us
      using less.hyps [of r us] that Cons by simp
    have IHm: "map_option f (lex r) = Some us"
      if "length r \<le> length cs" "map_option f (lex (r @ [c])) = Some us" for r f us
      using IH [OF that(1)] that(2) by auto
    from less.prems Cons have p: "lex (c0 # (cs @ [c])) = Some ts" by simp
    show ?thesis
    proof (cases "is_json_ws c0")
      case True
      with p IH [of cs ts] Cons show ?thesis by simp
    next
      case nws: False
      show ?thesis
      proof (cases "c0 \<in> set [0x7B, 0x7D, 0x5B, 0x5D, 0x3A, 0x2C]")
        case True
        with p nws Cons show ?thesis
          using IH [of cs] by (auto split: if_splits)
      next
        case np: False
        show ?thesis
        proof (cases "c0 = 0x22")
          case True
          with p nws np obtain str n
            where ls: "lex_string (cs @ [c]) = Some (str, n)"
              and rest: "map_option ((#) (TStr str)) (lex (drop n (cs @ [c]))) = Some ts"
            by (auto split: option.splits)
          from lex_string_snoc [OF assms ls]
          have ls': "lex_string cs = Some (str, n)" and n: "n \<le> length cs" by simp_all
          from n rest have "map_option ((#) (TStr str)) (lex (drop n cs @ [c])) = Some ts" by simp
          from IHm [OF _ this] have "map_option ((#) (TStr str)) (lex (drop n cs)) = Some ts" by simp
          with True nws np ls' Cons show ?thesis by simp
        next
          case nq: False
          show ?thesis
          proof (cases "c0 = 0x2D \<or> is_digit c0")
            case True
            have eq: "lex_number (c0 # (cs @ [c])) = lex_number (c0 # cs)"
              using lex_number_snoc [OF assms, of "c0 # cs"] by simp
            from p nws np nq True eq obtain m e n
              where ln: "lex_number (c0 # cs) = Some (m, e, n)"
                and rest: "map_option ((#) (TNum m e)) (lex (drop (n - 1) (cs @ [c]))) = Some ts"
              by (auto split: option.splits)
            from lex_number_length [OF ln] have n: "n - 1 \<le> length cs" by simp
            with rest have "map_option ((#) (TNum m e)) (lex (drop (n - 1) cs @ [c])) = Some ts" by simp
            from IHm [OF _ this] have "map_option ((#) (TNum m e)) (lex (drop (n - 1) cs)) = Some ts" by simp
            with True nws np nq ln Cons show ?thesis by simp
          next
            case nn: False
            from assms have notin: "c \<notin> set (lit ''true'')" "c \<notin> set (lit ''false'')" "c \<notin> set (lit ''null'')"
              by (simp_all add: inert_def)
            have pre: "prefix w (c0 # cs @ [c]) = prefix w (c0 # cs)" if "c \<notin> set w" for w
              using prefix_snoc_notin [OF that, of "c0 # cs"] by simp
            have dr: "drop k (cs @ [c]) = drop k cs @ [c]" if "prefix w (c0 # cs)" "length w = Suc k" for w k
            proof -
              from that(1) have "length w \<le> length (c0 # cs)" by (rule prefix_length_le)
              with that(2) show ?thesis by simp
            qed
            have len: "length (lit ''true'') = Suc 3" "length (lit ''false'') = Suc 4"
              "length (lit ''null'') = Suc 3"
              by (simp_all add: lit_def)
            show ?thesis
            proof (cases "prefix (lit ''true'') (c0 # cs)")
              case True
              with p nws np nq nn pre [OF notin(1)] dr [OF True len(1)]
              have "map_option ((#) TTrue) (lex (drop 3 cs @ [c])) = Some ts" by simp
              from IHm [OF _ this] have "map_option ((#) TTrue) (lex (drop 3 cs)) = Some ts" by simp
              with True nws np nq nn Cons show ?thesis by simp
            next
              case nt: False
              show ?thesis
              proof (cases "prefix (lit ''false'') (c0 # cs)")
                case True
                with p nws np nq nn nt pre [OF notin(1)] pre [OF notin(2)] dr [OF True len(2)]
                have "map_option ((#) TFalse) (lex (drop 4 cs @ [c])) = Some ts" by simp
                from IHm [OF _ this] have "map_option ((#) TFalse) (lex (drop 4 cs)) = Some ts" by simp
                with True nws np nq nn nt Cons show ?thesis by simp
              next
                case nf: False
                show ?thesis
                proof (cases "prefix (lit ''null'') (c0 # cs)")
                  case True
                  with p nws np nq nn nt nf pre [OF notin(1)] pre [OF notin(2)] pre [OF notin(3)]
                    dr [OF True len(3)]
                  have "map_option ((#) TNull) (lex (drop 3 cs @ [c])) = Some ts" by simp
                  from IHm [OF _ this] have "map_option ((#) TNull) (lex (drop 3 cs)) = Some ts" by simp
                  with True nws np nq nn nt nf Cons show ?thesis by simp
                next
                  case False
                  with p nws np nq nn nt nf pre [OF notin(1)] pre [OF notin(2)] pre [OF notin(3)]
                  show ?thesis by simp
                qed
              qed
            qed
          qed
        qed
      qed
    qed
  qed
qed

lemma lex_dropWhile_ws_end:
  "lex (r @ w) = Some ts \<Longrightarrow> list_all is_js_ws w \<Longrightarrow> lex r = Some ts"
proof (induction w arbitrary: r rule: rev_induct)
  case Nil
  then show ?case by simp
next
  case (snoc x xs)
  from snoc.prems have "lex ((r @ xs) @ [x]) = Some ts" "is_js_ws x" "list_all is_js_ws xs"
    by simp_all
  with lex_snoc [OF js_ws_inert] have "lex (r @ xs) = Some ts" by blast
  with snoc.IH \<open>list_all is_js_ws xs\<close> show ?case by blast
qed

lemma rev_dropWhile_rev:
  "\<exists>w. s = rev (dropWhile P (rev s)) @ w \<and> list_all P w"
proof -
  have "rev s = takeWhile P (rev s) @ dropWhile P (rev s)" by simp
  then have "s = rev (dropWhile P (rev s)) @ rev (takeWhile P (rev s))"
    by (metis rev_append rev_rev_ident)
  moreover have "list_all P (rev (takeWhile P (rev s)))"
    by (simp add: list_all_iff) (meson set_takeWhileD)
  ultimately show ?thesis by blast
qed

lemma lex_trim: "lex s = Some ts \<Longrightarrow> lex (trim s) = Some ts"
proof -
  assume "lex s = Some ts"
  then have a: "lex (dropWhile is_js_ws s) = Some ts" by (rule lex_dropWhile_ws)
  obtain w where w: "dropWhile is_js_ws s = trim s @ w" "list_all is_js_ws w"
    using rev_dropWhile_rev [of "dropWhile is_js_ws s" is_js_ws] by (auto simp: trim_def)
  from a have "lex (trim s @ w) = Some ts" by (simp only: w(1))
  from lex_dropWhile_ws_end [OF this w(2)] show ?thesis .
qed

lemma JSON_parse_trim: "JSON_parse s = Some v \<Longrightarrow> JSON_parse (trim s) = Some v"
  by (auto simp: JSON_parse_def dest: lex_trim split: option.splits)

section \<open>Claims about the response validator\<close>

text \<open>
  Text in front of a fence marker that has no backtick and does not end in a line feed
  is copied as it is; so is text without a backtick in front of the closing marker.
\<close>

lemma strip_fences_append:
  "0x60 \<notin> set a \<Longrightarrow> a = [] \<or> last a \<noteq> 0x0A \<Longrightarrow> strip_fences (a @ b) = a @ strip_fences b"
proof (induction a)
  case Nil
  show ?case by simp
next
  case (Cons c a)
  then have c: "c \<noteq> 0x60" and a: "0x60 \<notin> set a" by auto
  from Cons.prems(2) have l: "a = [] \<or> last a \<noteq> 0x0A" by (auto split: if_splits)
  have "\<not> prefix FENCE (c # a @ b)" "\<not> prefix FENCE_JSON (c # a @ b)"
    "\<not> prefix (FENCE_JSON @ NL) (c # a @ b)"
    using c by (auto simp: FENCE_def FENCE_JSON_def lit_def)
  moreover have "\<not> prefix (NL @ FENCE) (c # a @ b)"
  proof (cases a)
    case Nil
    with Cons.prems(2) show ?thesis by (simp add: NL_def)
  next
    case (Cons d r)
    with a show ?thesis by (auto simp: FENCE_def NL_def lit_def)
  qed
  ultimately show ?case using Cons.IH [OF a l] by simp
qed

lemma strip_fences_closing:
  "0x60 \<notin> set s \<Longrightarrow> strip_fences (s @ NL @ FENCE) = s"
proof (induction s)
  case Nil
  show ?case by (simp add: NL_def FENCE_def FENCE_JSON_def lit_def)
next
  case (Cons c s)
  then have c: "c \<noteq> 0x60" and s: "0x60 \<notin> set s" by auto
  have "\<not> prefix FENCE (c # s @ NL @ FENCE)" "\<not> prefix FENCE_JSON (c # s @ NL @ FENCE)"
    "\<not> prefix (FENCE_JSON @ NL) (c # s @ NL @ FENCE)"
    using c by (auto simp: FENCE_def FENCE_JSON_def lit_def)
  moreover have "\<not> prefix (NL @ FENCE) (c # s @ NL @ FENCE)"
    using s by (cases s) (auto simp: FENCE_def NL_def lit_def)
  ultimately show ?case using Cons.IH [OF s] by simp
qed

lemma fence_direct: "JSON_parse fence_text = Some fence_response"
  by (simp add: fence_text_def fence_response_def json_eval)

lemma fence_cut_parse: "JSON_parse (trim fence_text_cut) = Some fence_response_cut"
proof -
  have "trim fence_text_cut = fence_text_cut"
    by (rule trim_id) (simp_all add: fence_text_cut_def lit_def is_js_ws_def js_ws_units_def)
  moreover have "JSON_parse fence_text_cut = Some fence_response_cut"
    by (simp add: fence_text_cut_def fence_response_cut_def json_eval)
  ultimately show ?thesis by simp
qed

lemma fence_text_split:
  \<open>fence_text = lit ''{"content_for_user":"Write '' @ FENCE_JSON @
     lit '' before the data.","internal_monologue":"Format question.","knowledge_point_id":"ENG_01","student_mastery_score":50,"suggested_next_state":"EXPLAINING","is_direct_answer_attempt":false}''\<close>
  \<open>fence_text_cut = lit ''{"content_for_user":"Write '' @
     lit '' before the data.","internal_monologue":"Format question.","knowledge_point_id":"ENG_01","student_mastery_score":50,"suggested_next_state":"EXPLAINING","is_direct_answer_attempt":false}''\<close>
  by (simp_all add: fence_text_def fence_text_cut_def FENCE_JSON_def lit_def)

lemma fence_strip:
  "strip_fences fence_text = fence_text_cut"
  "strip_fences fence_text_fenced = fence_text_cut"
proof -
  let ?a = \<open>lit ''{"content_for_user":"Write ''\<close>
  let ?b = \<open>lit '' before the data.","internal_monologue":"Format question.","knowledge_point_id":"ENG_01","student_mastery_score":50,"suggested_next_state":"EXPLAINING","is_direct_answer_attempt":false}''\<close>
  have a: "0x60 \<notin> set ?a" "?a = [] \<or> last ?a \<noteq> 0x0A"
    by (simp_all add: lit_def)
  have b: "0x60 \<notin> set ?b"
    unfolding backtick_lit by code_simp
  have skip: "strip_fences (FENCE_JSON @ r) = strip_fences r" if "r \<noteq> []" "hd r \<noteq> 0x0A" for r
    using that by (cases r) (simp_all add: FENCE_JSON_def NL_def lit_def)
  have "strip_fences (FENCE_JSON @ ?b) = strip_fences ?b"
    by (rule skip) (simp_all add: lit_def)
  with b have "strip_fences (FENCE_JSON @ ?b) = ?b"
    by (simp add: strip_fences_no_backtick)
  with strip_fences_append [OF a, of "FENCE_JSON @ ?b"]
  show one: "strip_fences fence_text = fence_text_cut"
    by (simp only: fence_text_split)
  have "strip_fences (FENCE_JSON @ (?b @ NL @ FENCE)) = strip_fences (?b @ NL @ FENCE)"
    by (rule skip) (simp_all add: lit_def)
  with strip_fences_closing [OF b] have "strip_fences (FENCE_JSON @ ?b @ NL @ FENCE) = ?b"
    by simp
  with strip_fences_append [OF a, of "FENCE_JSON @ ?b @ NL @ FENCE"]
  have c: "strip_fences (fence_text @ NL @ FENCE) = fence_text_cut"
    by (simp only: fence_text_split append_assoc)
  have e: "fence_text_fenced = FENCE_JSON @ NL @ (fence_text @ NL @ FENCE)"
    by (simp add: fence_text_fenced_def FENCE_JSON_def FENCE_def)
  have o: "strip_fences (FENCE_JSON @ NL @ r) = strip_fences r" for r
    by (simp add: FENCE_JSON_def NL_def lit_def)
  show "strip_fences fence_text_fenced = fence_text_cut"
    by (simp only: e o c)
qed

lemma fence_local:
  "parseStructuredResponse_local (Some (JStr fence_text)) = Inr fence_response_cut"
  by (simp add: parseStructuredResponse_local_def fence_strip fence_cut_parse)

lemma fence_differs: "fence_response_cut \<noteq> fence_response"
  by (simp add: fence_response_cut_def fence_response_def lit_def)

lemma fenced_direct: "JSON_parse fence_text_fenced = None"
  by (simp add: fence_text_fenced_def JSON_parse_def lit_def is_json_ws_def is_digit_def)

lemma fenced_outer: "strip_outer_fences fence_text_fenced = NL @ fence_text @ NL"
proof -
  have p: "prefix FENCE_JSON fence_text_fenced"
    by (simp add: fence_text_fenced_def FENCE_JSON_def)
  have d: "drop 7 fence_text_fenced = (NL @ fence_text @ NL) @ FENCE"
    by (simp add: fence_text_fenced_def FENCE_def lit_def)
  have s: "suffix FENCE ((NL @ fence_text @ NL) @ FENCE)"
    by (rule suffixI) simp
  have t: "take (length ((NL @ fence_text @ NL) @ FENCE) - 3) ((NL @ fence_text @ NL) @ FENCE)
      = NL @ fence_text @ NL"
    by (simp add: FENCE_def lit_def)
  show ?thesis
    unfolding strip_outer_fences_def Let_def
    by (simp only: p d s t if_True)
qed

lemma fenced_policy: "JSON_parse (NL @ fence_text @ NL) = Some fence_response"
  by (simp add: NL_def fence_text_def fence_response_def json_eval)

text \<open>
  A text that holds no fence marker and parses is parsed to the same value by the
  local validator: the order matters only for a text with a marker in it.
\<close>

lemma local_without_marker:
  assumes "strip_fences raw = raw" "JSON_parse raw = Some v"
  shows "parseStructuredResponse_local (Some (JStr raw)) = Inr v"
  using assms JSON_parse_trim [OF assms(2)] by (simp add: parseStructuredResponse_local_def)

text \<open>
  Claim C4. The policy is: a direct parse first; only if it fails, the leading and
  trailing markers are stripped and the parse retried; only then the failure. On
  \<open>fence_text\<close>, a valid response with a marker inside a string, the direct parse
  succeeds: the policy and the validator of the Gemini gateway hand back the record the
  text denotes, and the validator of the local gateway, which has no direct parse and
  removes every marker first, hands back another record. On the same response wrapped in
  a fenced block the direct parse fails; the policy strips the two outer markers and
  hands back the record, and both validators, which remove every match of the pattern,
  hand back the other one.
\<close>

theorem C4_local_cleans_before_parsing:
  "JSON_parse fence_text = Some fence_response
   \<and> recovery_policy fence_text = Parsed fence_response
   \<and> outcome_of (parseStructuredResponse_gemini fence_text) = Parsed fence_response
   \<and> outcome_of (parseStructuredResponse_local (Some (JStr fence_text))) = Parsed fence_response_cut
   \<and> fence_response_cut \<noteq> fence_response
   \<and> JSON_parse fence_text_fenced = None
   \<and> recovery_policy fence_text_fenced = Parsed fence_response
   \<and> outcome_of (parseStructuredResponse_gemini fence_text_fenced) = Parsed fence_response_cut
   \<and> outcome_of (parseStructuredResponse_local (Some (JStr fence_text_fenced))) = Parsed fence_response_cut"
  by (simp add: recovery_policy_def outcome_of_def parseStructuredResponse_gemini_def
      parseStructuredResponse_local_def fence_direct fence_differs fenced_direct fenced_outer
      fenced_policy fence_strip fence_cut_parse)

text \<open>
  Claim C5. The text \<open>fence_text\<close> is a valid response; it denotes \<open>fence_response\<close>,
  whose text for the learner holds a fence marker. The local validator returns a record
  whose text for the learner has lost the marker: the value parsed is not the value the
  text denotes.
\<close>

theorem C5_fence_marker_inside_a_string:
  "JSON_parse fence_text = Some fence_response
   \<and> parseStructuredResponse_local (Some (JStr fence_text)) = Inr fence_response_cut
   \<and> get_prop fence_response (lit ''content_for_user'') = Some (JStr (lit ''Write ```json before the data.''))
   \<and> get_prop fence_response_cut (lit ''content_for_user'') = Some (JStr (lit ''Write  before the data.''))"
  by (simp add: fence_direct fence_local)
    (simp add: fence_response_def fence_response_cut_def get_prop_def lit_def)

end
